theory Spec2Isabelle
  imports Complex_Main
begin

section \<open>JavaScript array helpers\<close>

text \<open>
  \<^verbatim>\<open>Array.prototype.findIndex\<close>: the index of the first element satisfying the
  predicate, or \<open>-1\<close> when there is none.
\<close>

fun findIndex :: "('a \<Rightarrow> bool) \<Rightarrow> 'a list \<Rightarrow> int" where
  "findIndex P [] = - 1"
| "findIndex P (x # xs) =
     (if P x then 0
      else (let i = findIndex P xs in if i = - 1 then - 1 else i + 1))"

text \<open>
  \<^verbatim>\<open>Array.prototype.splice(start, deleteCount)\<close> without inserted items, as the
  language defines it: a negative \<open>start\<close> counts from the end of the array (and is
  clamped at 0), a \<open>start\<close> beyond the end is clamped to the length, and the number of
  deleted elements is clamped to what is left after \<open>start\<close>. The value is the array
  after the call.
\<close>

definition splice :: "int \<Rightarrow> int \<Rightarrow> 'a list \<Rightarrow> 'a list" where
  "splice start deleteCount xs =
     (let len = int (length xs);
          actualStart = (if start < 0 then max (len + start) 0 else min start len);
          actualDeleteCount = min (max deleteCount 0) (len - actualStart)
      in take (nat actualStart) xs @ drop (nat (actualStart + actualDeleteCount)) xs)"

text \<open>\<^verbatim>\<open>Array.prototype.find\<close>: the first element satisfying the predicate, if any.\<close>

fun find_first :: "('a \<Rightarrow> bool) \<Rightarrow> 'a list \<Rightarrow> 'a option" where
  "find_first P [] = None"
| "find_first P (x # xs) = (if P x then Some x else find_first P xs)"

section \<open>Data received from the backend\<close>

text \<open>
  JavaScript numbers are modelled by the real numbers they denote; the only arithmetic
  the component performs on them is the multiplication in \<open>getLinkWidth\<close>. An optional
  field that is absent (\<^verbatim>\<open>undefined\<close>) is \<open>None\<close>.
\<close>

type_synonym addr = nat

record node =
  node_id :: string
  node_name :: string
  node_type :: string
  node_confidence :: "real option"
  node_x :: "real option"
  node_y :: "real option"
  node_highlighted :: "bool option"
  node_opacity :: "real option"

text \<open>
  The component never writes the \<^verbatim>\<open>source\<close> and \<^verbatim>\<open>target\<close> of a link. They hold
  what the backend sends, two node ids, until the force-graph library resolves the link
  and puts the two node objects in their place.
\<close>

datatype ends = Ids string string | Nodes addr addr

record link =
  link_ends :: ends
  link_type :: string
  link_confidence :: "real option"
  link_highlighted :: "bool option"
  link_opacity :: "real option"

text \<open>
  The JSON body of a \<^verbatim>\<open>/call-chain\<close> response: an object whose
  \<^verbatim>\<open>nodes\<close> and \<^verbatim>\<open>links\<close> members may each be missing (an error body such as
  \<^verbatim>\<open>{"detail": "..."}\<close> has neither).
\<close>

record json_node =
  jn_id :: string
  jn_name :: string
  jn_type :: string
  jn_confidence :: "real option"

record json_link =
  jl_source :: string
  jl_target :: string
  jl_type :: string
  jl_confidence :: "real option"

record call_chain_body =
  body_nodes :: "json_node list option"
  body_links :: "json_link list option"

text \<open>
  The object that JSON parsing builds for a node or a link of a body: the transient
  members and the layout coordinates are absent, and the ends of a link are ids.
\<close>

definition node_of_json :: "json_node \<Rightarrow> node" where
  "node_of_json j =
     \<lparr>node_id = jn_id j, node_name = jn_name j, node_type = jn_type j,
      node_confidence = jn_confidence j, node_x = None, node_y = None,
      node_highlighted = None, node_opacity = None\<rparr>"

definition link_of_json :: "json_link \<Rightarrow> link" where
  "link_of_json j =
     \<lparr>link_ends = Ids (jl_source j) (jl_target j),
      link_type = jl_type j, link_confidence = jl_confidence j,
      link_highlighted = None, link_opacity = None\<rparr>"

text \<open>
  \<^verbatim>\<open>response.json()\<close> builds new objects. \<open>store_all a xs h\<close> puts the objects \<open>xs\<close>
  at the consecutive addresses from \<open>a\<close> on.
\<close>

fun store_all :: "addr \<Rightarrow> 'a list \<Rightarrow> (addr \<Rightarrow> 'a) \<Rightarrow> (addr \<Rightarrow> 'a)" where
  "store_all a [] h = h"
| "store_all a (x # xs) h = store_all (Suc a) xs (h(a := x))"

record procedure =
  proc_name :: string
  proc_schema :: "string option"

datatype 'a promise = Rejected | Resolved 'a

datatype error = TypeError | NetworkError | SyntaxError | SecurityError

section \<open>App.vue: the recent-procedures list\<close>

text \<open>
  User-visible messages are \<^verbatim>\<open>alert\<close> calls with fixed texts; each text is one
  constructor.
\<close>

datatype alert_msg =
    SearchNotFound
  | SearchFailed
  | LoadCallChainFailed
  | ExportFailed

text \<open>
  The entry \<^verbatim>\<open>recentProcedures\<close> of \<^verbatim>\<open>localStorage\<close> holds a JSON text; it is
  modelled by what the text denotes.
\<close>

datatype stored = Absent | Malformed | Stored "procedure list"

record app =
  recentProcedures :: "procedure list"
  localStorage :: stored
  app_graphData :: call_chain_body
  app_alerts :: "alert_msg list"

definition loadRecentProcedures :: "app \<Rightarrow> app" where
  "loadRecentProcedures s =
     (case localStorage s of
        Absent \<Rightarrow> s
      | Stored ps \<Rightarrow> s\<lparr>recentProcedures := ps\<rparr>
      | Malformed \<Rightarrow> s\<lparr>recentProcedures := []\<rparr>)"

text \<open>
  \<open>addToRecentProcedures\<close>, statement by statement: the guarded
  \<^verbatim>\<open>splice(index, 1)\<close>, the second \<^verbatim>\<open>splice(index, 1)\<close> that follows the guard
  unconditionally, \<^verbatim>\<open>unshift\<close>, the cut to ten entries, and the write to
  \<^verbatim>\<open>localStorage\<close>.
\<close>

definition addToRecentProcedures :: "procedure \<Rightarrow> app \<Rightarrow> app" where
  "addToRecentProcedures p s =
     (let index = findIndex (\<lambda>q. proc_name q = proc_name p) (recentProcedures s);
          r1 = (if index \<noteq> - 1 then splice index 1 (recentProcedures s)
                else recentProcedures s);
          r2 = splice index 1 r1;
          r3 = p # r2;
          r4 = (if length r3 > 10 then take 10 r3 else r3)
      in s\<lparr>recentProcedures := r4, localStorage := Stored r4\<rparr>)"

text \<open>
  \<open>loadCallChain\<close> of App.vue. The outcome of \<^verbatim>\<open>api.getCallChain\<close> (axios rejects on
  a network failure and on a non-2xx status) and the outcome of the call into the child
  component are parameters: \<open>child = None\<close> when \<^verbatim>\<open>graph3d.value\<close> is unset or the
  call returns, \<open>Some e\<close> when the call throws.
\<close>

definition app_loadCallChain ::
  "call_chain_body promise \<Rightarrow> error option \<Rightarrow> string \<Rightarrow> app \<Rightarrow> app" where
  "app_loadCallChain response child procedureName s =
     (case response of
        Rejected \<Rightarrow> s\<lparr>app_alerts := app_alerts s @ [LoadCallChainFailed]\<rparr>
      | Resolved body \<Rightarrow>
          (let s1 = s\<lparr>app_graphData := body\<rparr>;
               s2 = addToRecentProcedures \<lparr>proc_name = procedureName, proc_schema = None\<rparr> s1
           in case child of
                None \<Rightarrow> s2
              | Some e \<Rightarrow> s2\<lparr>app_alerts := app_alerts s2 @ [LoadCallChainFailed]\<rparr>))"

text \<open>A run of successful loads, oldest first.\<close>

fun loads :: "(string \<times> call_chain_body) list \<Rightarrow> app \<Rightarrow> app" where
  "loads [] s = s"
| "loads ((n, b) # rest) s = loads rest (app_loadCallChain (Resolved b) None n s)"

definition app0 :: app where
  "app0 = \<lparr>recentProcedures = [], localStorage = Absent,
           app_graphData = \<lparr>body_nodes = Some [], body_links = Some []\<rparr>,
           app_alerts = []\<rparr>"

definition empty_body :: call_chain_body where
  "empty_body = \<lparr>body_nodes = Some [], body_links = Some []\<rparr>"

section \<open>Graph3D.vue: component state\<close>

text \<open>
  Each \<^verbatim>\<open>ref\<close> of the component is a field of the state. Node and link objects have
  identity: a link refers to its end nodes, and \<open>highlightNode\<close> changes a node through
  such a reference. Both kinds of object
  therefore live in a store, indexed by address; an array of objects is a list of
  addresses. Every address holds an object, as every JavaScript reference does.
\<close>

record graph_data =
  gd_nodes :: "addr list option"
  gd_links :: "addr list option"

datatype camera_call =
    CenterAt "real option" "real option" real
  | CameraPosition "real option" "real option" "real option" "addr option" "real option"

text \<open>
  The handle \<^verbatim>\<open>graph.value\<close> on the force-graph instance: which of the two
  constructors made it, the data last handed to \<^verbatim>\<open>graphData(...)\<close>, whether
  \<^verbatim>\<open>_destructor()\<close> ran, and the camera moves requested. A call on the handle is
  taken to return normally whenever the handle is set; on \<^verbatim>\<open>null\<close> it is a
  \<open>TypeError\<close>. What the library does to the data on its own (layout coordinates,
  resolving link ends to node objects) is not part of the component's code.
\<close>

record renderer =
  r_3d :: bool
  r_data :: "graph_data option"
  r_destroyed :: bool
  r_camera :: "camera_call list"

type_synonym blob = string

text \<open>
  What \<^verbatim>\<open>canvas.toBlob(callback)\<close> does: throw synchronously, or hand a blob to the
  callback.
\<close>

datatype toBlob_outcome = Throws | Calls blob

record container =
  canvas :: "toBlob_outcome option"

datatype request =
    SearchReq string
  | CallChainReq string int real

record search_body =
  procedures :: "procedure list option"

text \<open>
  The result of \<^verbatim>\<open>fetch\<close> followed by \<^verbatim>\<open>response.json()\<close>: \<open>fetch\<close> rejects only
  when the request itself fails; otherwise there is a response with a status (\<open>resp_ok\<close>
  is \<^verbatim>\<open>response.ok\<close>), whose body parses as JSON (\<open>Some\<close>) or not (\<open>None\<close>).
\<close>

record 'b response =
  resp_ok :: bool
  resp_json :: "'b option"

record comp =
  nheap :: "addr \<Rightarrow> node"
  lheap :: "addr \<Rightarrow> link"
  next_node :: addr
  next_link :: addr
  graphContainer :: "container option"
  searchTerm :: string
  selectedNode :: "addr option"
  graph :: "renderer option"
  graphData :: graph_data
  depth :: int
  confidenceThreshold :: real
  is3D :: bool
  alerts :: "alert_msg list"
  requests :: "request list"
  downloads :: "(blob \<times> string) list"

text \<open>
  A function that may throw returns \<open>Inl (e, s)\<close>, the exception together with the
  state reached when it was thrown, or \<open>Inr s\<close>.
\<close>

type_synonym 's result = "(error \<times> 's) + 's"

definition state_of :: "'s result \<Rightarrow> 's" where
  "state_of r = (case r of Inl (e, s) \<Rightarrow> s | Inr s \<Rightarrow> s)"

definition and_then :: "'s result \<Rightarrow> ('s \<Rightarrow> 's result) \<Rightarrow> 's result" where
  "and_then r f = (case r of Inl es \<Rightarrow> Inl es | Inr s \<Rightarrow> f s)"

text \<open>\<^verbatim>\<open>try { ... } catch (error) { handler }\<close> for a handler that does not throw.\<close>

definition try_catch :: "'s result \<Rightarrow> ('s \<Rightarrow> 's) \<Rightarrow> 's" where
  "try_catch r handler = (case r of Inl (e, s) \<Rightarrow> handler s | Inr s \<Rightarrow> s)"

fun forEach :: "('a \<Rightarrow> 's \<Rightarrow> 's result) \<Rightarrow> 'a list \<Rightarrow> 's \<Rightarrow> 's result" where
  "forEach f [] s = Inr s"
| "forEach f (x # xs) s =
     (case f x s of Inl es \<Rightarrow> Inl es | Inr s' \<Rightarrow> forEach f xs s')"

definition alert :: "alert_msg \<Rightarrow> comp \<Rightarrow> comp" where
  "alert m s = s\<lparr>alerts := alerts s @ [m]\<rparr>"

section \<open>Graph3D.vue: object identity under Vue's reactivity\<close>

text \<open>
  \<^verbatim>\<open>graphData\<close> is a Vue \<^verbatim>\<open>ref\<close>. What is read through \<^verbatim>\<open>graphData.value\<close> is a
  reactive proxy, and so is every object read from a proxy: the elements that
  \<^verbatim>\<open>forEach\<close>, \<^verbatim>\<open>filter\<close> and \<^verbatim>\<open>find\<close> hand to their callbacks, and the
  \<^verbatim>\<open>source\<close> and \<^verbatim>\<open>target\<close> of such a link. An object has one proxy, and the proxy
  is not identical to the object. Writing through a proxy writes the object; what is
  stored in an object is always raw.

  A reference to a node is therefore the raw object or its proxy, and \<^verbatim>\<open>===\<close> on two
  references is the equality of \<open>jsref\<close>. \<open>searchNode\<close> finds its node through
  \<^verbatim>\<open>graphData.value\<close> and passes a proxy; \<open>loadCallChain\<close> finds it in the parsed
  response and passes the raw object; the renderer passes to \<^verbatim>\<open>onNodeClick\<close> a node
  of the data it was given, raw when that was the parsed response.
\<close>

datatype jsref = Raw addr | Proxy addr

fun obj_of :: "jsref \<Rightarrow> addr" where
  "obj_of (Raw a) = a"
| "obj_of (Proxy a) = a"

text \<open>The value of \<^verbatim>\<open>l.source\<close> or \<^verbatim>\<open>l.target\<close> for a link \<open>l\<close> read through its proxy.\<close>

datatype jsval = Ref jsref | Id string

definition link_source :: "link \<Rightarrow> jsval" where
  "link_source l = (case link_ends l of Ids i j \<Rightarrow> Id i | Nodes a b \<Rightarrow> Ref (Proxy a))"

definition link_target :: "link \<Rightarrow> jsval" where
  "link_target l = (case link_ends l of Ids i j \<Rightarrow> Id j | Nodes a b \<Rightarrow> Ref (Proxy b))"

section \<open>Graph3D.vue: rendering and highlighting\<close>

definition getLinkWidth :: "link \<Rightarrow> real" where
  "getLinkWidth l =
     (case link_confidence l of
        Some c \<Rightarrow> if c = 0 then 0.5 else c
      | None \<Rightarrow> 0.5) * 3"

definition initGraph :: "comp \<Rightarrow> comp" where
  "initGraph s =
     (case graphContainer s of
        None \<Rightarrow> s
      | Some c \<Rightarrow>
          (let g = \<lparr>r_3d = is3D s, r_data = None, r_destroyed = False, r_camera = []\<rparr>
           in if is3D s
              then s\<lparr>graph := Some (g\<lparr>r_camera := [CameraPosition None None (Some 250) None None]\<rparr>)\<rparr>
              else s\<lparr>graph := Some g\<rparr>))"

definition loadData :: "graph_data \<Rightarrow> comp \<Rightarrow> comp result" where
  "loadData d s =
     (let s1 = s\<lparr>graphData := d\<rparr>
      in case graph s1 of
           None \<Rightarrow> Inl (TypeError, s1)
         | Some g \<Rightarrow> Inr (s1\<lparr>graph := Some (g\<lparr>r_data := Some d\<rparr>)\<rparr>))"

definition updateNodesAppearance :: "comp \<Rightarrow> comp result" where
  "updateNodesAppearance s =
     (case graph s of None \<Rightarrow> Inl (TypeError, s) | Some g \<Rightarrow> Inr s)"

definition set_node :: "bool \<Rightarrow> real \<Rightarrow> node \<Rightarrow> node" where
  "set_node h opa n = n\<lparr>node_highlighted := Some h, node_opacity := Some opa\<rparr>"

definition set_link :: "bool \<Rightarrow> real \<Rightarrow> link \<Rightarrow> link" where
  "set_link h opa l = l\<lparr>link_highlighted := Some h, link_opacity := Some opa\<rparr>"

text \<open>
  The two expressions of \<open>highlightNode\<close> that compare a link's ends with the selected
  node by identity: the filter \<^verbatim>\<open>l.source === node || l.target === node\<close> and the
  other end \<^verbatim>\<open>l.source === node ? l.target : l.source\<close>. The link \<open>l\<close> comes from
  \<^verbatim>\<open>graphData.value.links\<close>, so its ends are read through the proxy.
\<close>

definition connects :: "jsref \<Rightarrow> link \<Rightarrow> bool" where
  "connects node l = (link_source l = Ref node \<or> link_target l = Ref node)"

definition connectedNode :: "jsref \<Rightarrow> link \<Rightarrow> jsval" where
  "connectedNode node l = (if link_source l = Ref node then link_target l else link_source l)"

text \<open>
  The body of \<^verbatim>\<open>connectedLinks.forEach\<close>. The file is an ES module, hence strict
  code: assigning a property on a primitive (a link end that is an id) throws.
\<close>

definition highlightConnected :: "jsref \<Rightarrow> addr \<Rightarrow> comp \<Rightarrow> comp result" where
  "highlightConnected node l s =
     (let s1 = s\<lparr>lheap := (lheap s)(l := set_link True 1 (lheap s l))\<rparr>
      in case connectedNode node (lheap s1 l) of
           Ref r \<Rightarrow>
             Inr (s1\<lparr>nheap := (nheap s1)(obj_of r := set_node True 0.8 (nheap s1 (obj_of r)))\<rparr>)
         | Id i \<Rightarrow> Inl (TypeError, s1))"

definition highlightNode :: "jsref \<Rightarrow> comp \<Rightarrow> comp result" where
  "highlightNode node s =
     (case gd_nodes (graphData s) of
        None \<Rightarrow> Inl (TypeError, s)
      | Some ns \<Rightarrow>
          (let s1 = s\<lparr>nheap := fold (\<lambda>n h. h(n := set_node False 0.2 (h n))) ns (nheap s)\<rparr>
           in case gd_links (graphData s) of
                None \<Rightarrow> Inl (TypeError, s1)
              | Some ls \<Rightarrow>
                  (let s2 = s1\<lparr>lheap := fold (\<lambda>l h. h(l := set_link False 0.1 (h l))) ls (lheap s1)\<rparr>;
                       s3 = s2\<lparr>nheap := (nheap s2)
                                 (obj_of node := set_node True 1 (nheap s2 (obj_of node)))\<rparr>;
                       connectedLinks = filter (\<lambda>l. connects node (lheap s3 l)) ls
                   in and_then (forEach (highlightConnected node) connectedLinks s3)
                        updateNodesAppearance)))"

definition resetHighlight :: "comp \<Rightarrow> comp result" where
  "resetHighlight s =
     (case gd_nodes (graphData s) of
        None \<Rightarrow> Inl (TypeError, s)
      | Some ns \<Rightarrow>
          (let s1 = s\<lparr>nheap := fold (\<lambda>n h. h(n := set_node False 1 (h n))) ns (nheap s)\<rparr>
           in case gd_links (graphData s) of
                None \<Rightarrow> Inl (TypeError, s1)
              | Some ls \<Rightarrow>
                  updateNodesAppearance
                    (s1\<lparr>lheap := fold (\<lambda>l h. h(l := set_link False 1 (h l))) ls (lheap s1)\<rparr>)))"

definition handleNodeClick :: "jsref \<Rightarrow> comp \<Rightarrow> comp result" where
  "handleNodeClick node s = highlightNode node (s\<lparr>selectedNode := Some (obj_of node)\<rparr>)"

definition clearSelection :: "comp \<Rightarrow> comp result" where
  "clearSelection s = resetHighlight (s\<lparr>selectedNode := None\<rparr>)"

section \<open>Graph3D.vue: search, call-chain loading and the controls\<close>

text \<open>
  Parsing a call-chain body allocates its nodes and links at fresh addresses and yields
  the object that \<open>loadData\<close> receives.
\<close>

definition json_nodes :: "call_chain_body \<Rightarrow> comp \<Rightarrow> addr list option \<times> comp" where
  "json_nodes b s =
     (case body_nodes b of
        None \<Rightarrow> (None, s)
      | Some xs \<Rightarrow>
          (Some [next_node s ..< next_node s + length xs],
           s\<lparr>nheap := store_all (next_node s) (map node_of_json xs) (nheap s),
             next_node := next_node s + length xs\<rparr>))"

definition json_links :: "call_chain_body \<Rightarrow> comp \<Rightarrow> addr list option \<times> comp" where
  "json_links b s =
     (case body_links b of
        None \<Rightarrow> (None, s)
      | Some xs \<Rightarrow>
          (Some [next_link s ..< next_link s + length xs],
           s\<lparr>lheap := store_all (next_link s) (map link_of_json xs) (lheap s),
             next_link := next_link s + length xs\<rparr>))"

definition json :: "call_chain_body \<Rightarrow> comp \<Rightarrow> graph_data \<times> comp" where
  "json b s =
     (let (ns, s1) = json_nodes b s;
          (ls, s2) = json_links b s1
      in (\<lparr>gd_nodes = ns, gd_links = ls\<rparr>, s2))"

text \<open>
  \<open>loadCallChain\<close>. The outcome of the \<^verbatim>\<open>fetch\<close> is a parameter. The whole body is
  inside \<^verbatim>\<open>try\<close>; the handler alerts. \<^verbatim>\<open>response.ok\<close> is not read.
\<close>

definition loadCallChain ::
  "call_chain_body response promise \<Rightarrow> string \<Rightarrow> comp \<Rightarrow> comp" where
  "loadCallChain r nodeName s =
     try_catch
       (let s0 = s\<lparr>requests := requests s
                      @ [CallChainReq nodeName (depth s) (confidenceThreshold s)]\<rparr>
        in case r of
             Rejected \<Rightarrow> Inl (NetworkError, s0)
           | Resolved resp \<Rightarrow>
               (case resp_json resp of
                  None \<Rightarrow> Inl (SyntaxError, s0)
                | Some body \<Rightarrow>
                    (let (data, s1) = json body s0
                     in and_then (loadData data s1)
                          (\<lambda>s2. case gd_nodes data of
                                  None \<Rightarrow> Inl (TypeError, s2)
                                | Some ns \<Rightarrow>
                                    (case find_first (\<lambda>n. node_name (nheap s2 n) = nodeName) ns of
                                       Some node \<Rightarrow> handleNodeClick (Raw node) s2
                                     | None \<Rightarrow> Inr s2)))))
       (alert LoadCallChainFailed)"

text \<open>The camera moves of \<open>searchNode\<close> once the node is found in the current graph.\<close>

definition focusNode :: "jsref \<Rightarrow> comp \<Rightarrow> comp result" where
  "focusNode node s =
     (let distance = (if is3D s then 100 else 250);
          x = node_x (nheap s (obj_of node));
          y = node_y (nheap s (obj_of node))
      in case graph s of
           None \<Rightarrow> Inl (TypeError, s)
         | Some g \<Rightarrow>
             (let g1 = g\<lparr>r_camera := r_camera g @ [CenterAt x y distance]\<rparr>;
                  g2 = (if is3D s
                        then g1\<lparr>r_camera := r_camera g1
                               @ [CameraPosition x y (Some distance) (Some (obj_of node))
                                    (Some 2000)]\<rparr>
                        else g1)
              in Inr (s\<lparr>graph := Some g2\<rparr>)))"

text \<open>
  \<open>searchNode\<close>. The outcomes of the search request and of the call-chain request that
  may follow are parameters. \<open>loadCallChain\<close> is not awaited; it catches its own errors.
\<close>

definition searchNode ::
  "search_body response promise \<Rightarrow> call_chain_body response promise \<Rightarrow> comp \<Rightarrow> comp" where
  "searchNode sr cr s =
     (if searchTerm s = [] then s
      else try_catch
        (let s0 = s\<lparr>requests := requests s @ [SearchReq (searchTerm s)]\<rparr>
         in case sr of
              Rejected \<Rightarrow> Inl (NetworkError, s0)
            | Resolved resp \<Rightarrow>
                (case resp_json resp of
                   None \<Rightarrow> Inl (SyntaxError, s0)
                 | Some data \<Rightarrow>
                     (case procedures data of
                        Some (procedure # rest) \<Rightarrow>
                          (case gd_nodes (graphData s0) of
                             None \<Rightarrow> Inl (TypeError, s0)
                           | Some ns \<Rightarrow>
                               (case find_first
                                       (\<lambda>n. node_name (nheap s0 n) = proc_name procedure) ns of
                                  Some node \<Rightarrow>
                                    and_then (handleNodeClick (Proxy node) s0)
                                      (focusNode (Proxy node))
                                | None \<Rightarrow> Inr (loadCallChain cr (proc_name procedure) s0)))
                      | _ \<Rightarrow> Inr (alert SearchNotFound s0))))
        (alert SearchFailed))"

definition depthChanged :: "call_chain_body response promise \<Rightarrow> comp \<Rightarrow> comp" where
  "depthChanged r s =
     (case selectedNode s of
        Some node \<Rightarrow> loadCallChain r (node_name (nheap s node)) s
      | None \<Rightarrow> s)"

text \<open>
  \<open>confidenceChanged\<close>; \<open>apply_threshold\<close> is the body of its \<^verbatim>\<open>links.forEach\<close>.
  \<^verbatim>\<open>link.confidence >= confidenceThreshold.value\<close> is false when the link has no
  confidence.
\<close>

definition apply_threshold :: "real \<Rightarrow> link \<Rightarrow> link" where
  "apply_threshold t l =
     l\<lparr>link_opacity :=
         Some (if (case link_confidence l of Some c \<Rightarrow> c \<ge> t | None \<Rightarrow> False)
               then 1 else 0.3)\<rparr>"

definition confidenceChanged :: "comp \<Rightarrow> comp result" where
  "confidenceChanged s =
     (case gd_links (graphData s) of
        None \<Rightarrow> Inl (TypeError, s)
      | Some ls \<Rightarrow>
          updateNodesAppearance
            (s\<lparr>lheap := fold (\<lambda>l h. h(l := apply_threshold (confidenceThreshold s) (h l)))
                           ls (lheap s)\<rparr>))"

text \<open>
  The two sliders of the template: \<^verbatim>\<open>v-model.number\<close> stores the new value, then
  \<^verbatim>\<open>@change\<close> runs the handler.
\<close>

definition depth_slider :: "int \<Rightarrow> call_chain_body response promise \<Rightarrow> comp \<Rightarrow> comp" where
  "depth_slider d r s = depthChanged r (s\<lparr>depth := d\<rparr>)"

definition confidence_slider :: "real \<Rightarrow> comp \<Rightarrow> comp result" where
  "confidence_slider t s = confidenceChanged (s\<lparr>confidenceThreshold := t\<rparr>)"

definition toggleView :: "comp \<Rightarrow> comp result" where
  "toggleView s =
     (let s1 = s\<lparr>is3D := \<not> is3D s\<rparr>;
          currentData = graphData s1;
          s2 = (case graph s1 of
                  None \<Rightarrow> s1
                | Some g \<Rightarrow> s1\<lparr>graph := Some (g\<lparr>r_destroyed := True\<rparr>)\<rparr>);
          s3 = initGraph s2
      in loadData currentData s3)"

text \<open>
  \<open>exportImage\<close>. \<open>now\<close> is \<^verbatim>\<open>new Date().toISOString()\<close>. A missing container makes
  \<^verbatim>\<open>querySelector\<close> throw inside the \<^verbatim>\<open>try\<close>; a missing canvas returns early.
\<close>

definition exportImage :: "string \<Rightarrow> comp \<Rightarrow> comp" where
  "exportImage now s =
     try_catch
       (case graphContainer s of
          None \<Rightarrow> Inl (TypeError, s)
        | Some c \<Rightarrow>
            (case canvas c of
               None \<Rightarrow> Inr s
             | Some Throws \<Rightarrow> Inl (SecurityError, s)
             | Some (Calls b) \<Rightarrow>
                 Inr (s\<lparr>downloads := downloads s
                          @ [(b, ''oracle-sp-graph-'' @ take 10 now @ ''.png'')]\<rparr>)))
       (alert ExportFailed)"

section \<open>Example states\<close>

text \<open>
  A graph after the library has resolved the link ends: \<open>SP_A\<close> calls \<open>SP_B\<close> and
  reads \<open>T_ORDER\<close>, and \<open>SP_B\<close> calls \<open>SP_C\<close>, which is two hops from \<open>SP_A\<close>.
\<close>

definition ex_node :: "string \<Rightarrow> string \<Rightarrow> node" where
  "ex_node n t =
     \<lparr>node_id = n, node_name = n, node_type = t, node_confidence = None,
      node_x = None, node_y = None, node_highlighted = None, node_opacity = None\<rparr>"

definition ex_link :: "ends \<Rightarrow> string \<Rightarrow> real option \<Rightarrow> link" where
  "ex_link e t c =
     \<lparr>link_ends = e, link_type = t, link_confidence = c,
      link_highlighted = None, link_opacity = None\<rparr>"

definition ex_graph :: graph_data where
  "ex_graph = \<lparr>gd_nodes = Some [10, 11, 12, 13], gd_links = Some [20, 21, 22]\<rparr>"

definition ex_state :: comp where
  "ex_state =
     \<lparr>nheap = (\<lambda>a. ex_node [] [])
         (10 := ex_node ''SP_A'' ''SP'', 11 := ex_node ''SP_B'' ''SP'',
          12 := ex_node ''T_ORDER'' ''TABLE'', 13 := ex_node ''SP_C'' ''SP''),
      lheap = (\<lambda>a. ex_link (Ids [] []) [] None)
         (20 := ex_link (Nodes 10 11) ''CALLS'' (Some 0.9),
          21 := ex_link (Nodes 10 12) ''REFERENCES'' (Some 0.7),
          22 := ex_link (Nodes 11 13) ''CALLS'' (Some 0.4)),
      next_node = 14, next_link = 23,
      graphContainer = Some \<lparr>canvas = Some (Calls ''png'')\<rparr>,
      searchTerm = ''SP_B'',
      selectedNode = Some 10,
      graph = Some \<lparr>r_3d = True, r_data = Some ex_graph, r_destroyed = False, r_camera = []\<rparr>,
      graphData = ex_graph,
      depth = 3, confidenceThreshold = 0.5, is3D = True,
      alerts = [], requests = [], downloads = []\<rparr>"


text \<open>
  Two procedures of different schemas with the same name: the selected node is
  \<open>HR.SP_A\<close>, and the response lists \<open>FIN.SP_A\<close> before it.
\<close>

definition dup_state :: comp where
  "dup_state =
     ex_state\<lparr>nheap := (nheap ex_state)(10 := (ex_node ''SP_A'' ''SP'')\<lparr>node_id := ''HR.SP_A''\<rparr>)\<rparr>"

definition dup_body :: call_chain_body where
  "dup_body =
     \<lparr>body_nodes = Some
        [\<lparr>jn_id = ''FIN.SP_A'', jn_name = ''SP_A'', jn_type = ''SP'', jn_confidence = None\<rparr>,
         \<lparr>jn_id = ''HR.SP_A'', jn_name = ''SP_A'', jn_type = ''SP'', jn_confidence = None\<rparr>],
      body_links = Some []\<rparr>"

text \<open>The component before a renderer exists.\<close>

definition no_renderer_state :: comp where
  "no_renderer_state = ex_state\<lparr>graph := None\<rparr>"

text \<open>The container before the library has put a canvas into it.\<close>

definition no_canvas_state :: comp where
  "no_canvas_state = ex_state\<lparr>graphContainer := Some \<lparr>canvas = None\<rparr>\<rparr>"

text \<open>
  The graph of the specification's scenario A, as the backend sends it, and an error
  response with a JSON body that has neither \<^verbatim>\<open>nodes\<close> nor \<^verbatim>\<open>links\<close>.
\<close>

definition scenario_A :: call_chain_body where
  "scenario_A =
     \<lparr>body_nodes = Some
        [\<lparr>jn_id = ''SP_A'', jn_name = ''SP_A'', jn_type = ''SP'', jn_confidence = None\<rparr>,
         \<lparr>jn_id = ''SP_B'', jn_name = ''SP_B'', jn_type = ''SP'', jn_confidence = None\<rparr>,
         \<lparr>jn_id = ''T_ORDER'', jn_name = ''T_ORDER'', jn_type = ''TABLE'', jn_confidence = None\<rparr>],
      body_links = Some
        [\<lparr>jl_source = ''SP_A'', jl_target = ''SP_B'', jl_type = ''CALLS'',
          jl_confidence = Some 0.9\<rparr>,
         \<lparr>jl_source = ''SP_A'', jl_target = ''T_ORDER'', jl_type = ''REFERENCES'',
          jl_confidence = Some 0.7\<rparr>]\<rparr>"

definition ok_response :: "call_chain_body \<Rightarrow> call_chain_body response promise" where
  "ok_response b = Resolved \<lparr>resp_ok = True, resp_json = Some b\<rparr>"

definition error_response :: "call_chain_body response promise" where
  "error_response = Resolved \<lparr>resp_ok = False,
                              resp_json = Some \<lparr>body_nodes = None, body_links = None\<rparr>\<rparr>"

definition zero_link :: link where
  "zero_link = ex_link (Nodes 10 11) ''CALLS'' (Some 0)"

section \<open>Properties of the recent-procedures list\<close>

text \<open>
  C1. Starting from an empty list, the three successful loads \<open>SP_A\<close>, \<open>SP_B\<close>, \<open>SP_A\<close>
  should leave the persisted list \<open>[SP_A, SP_B]\<close>. The code leaves \<open>[SP_A]\<close>: the second,
  unguarded \<^verbatim>\<open>splice(index, 1)\<close> runs with \<open>index = -1\<close> when the name is new and
  deletes the last entry of the list.
\<close>

theorem recent_scenario_C_code:
  "localStorage (loads [(''SP_A'', empty_body), (''SP_B'', empty_body), (''SP_A'', empty_body)] app0)
     = Stored [\<lparr>proc_name = ''SP_A'', proc_schema = None\<rparr>]
   \<and> localStorage (loads [(''SP_A'', empty_body), (''SP_B'', empty_body), (''SP_A'', empty_body)] app0)
     \<noteq> Stored [\<lparr>proc_name = ''SP_A'', proc_schema = None\<rparr>,
                \<lparr>proc_name = ''SP_B'', proc_schema = None\<rparr>]"
  by code_simp

section \<open>Auxiliary lemmas on the object stores\<close>

lemma fold_upd_apply:
  assumes "\<And>y. f (f y) = f y"
  shows "fold (\<lambda>l h. h(l := f (h l))) ls h x = (if x \<in> set ls then f (h x) else h x)"
  using assms by (induction ls arbitrary: h) auto

lemma fold_upd_idem:
  assumes "\<And>y. f (f y) = f y"
  shows "fold (\<lambda>l h. h(l := f (h l))) ls (fold (\<lambda>l h. h(l := f (h l))) ls h)
         = fold (\<lambda>l h. h(l := f (h l))) ls h"
  by (rule ext) (simp add: fold_upd_apply assms)

lemma set_node_idem: "set_node b v (set_node b v n) = set_node b v n"
  by (simp add: set_node_def)

lemma set_link_idem: "set_link b v (set_link b v n) = set_link b v n"
  by (simp add: set_link_def)

lemma resetHighlight_idem: "resetHighlight (state_of (resetHighlight s)) = resetHighlight s"
proof (cases "gd_nodes (graphData s)")
  case None
  then show ?thesis by (simp add: resetHighlight_def state_of_def)
next
  case (Some ns)
  note ns = this
  show ?thesis
  proof (cases "gd_links (graphData s)")
    case None
    with ns show ?thesis
      by (simp add: resetHighlight_def state_of_def Let_def fold_upd_idem set_node_idem)
  next
    case (Some ls)
    with ns show ?thesis
      by (cases "graph s")
         (simp_all add: resetHighlight_def state_of_def Let_def updateNodesAppearance_def
            fold_upd_idem set_node_idem set_link_idem)
  qed
qed

lemma clearSelection_twice:
  "clearSelection (state_of (clearSelection s)) = clearSelection s"
proof -
  have sel: "selectedNode (state_of (resetHighlight s')) = selectedNode s'" for s'
    by (simp add: resetHighlight_def state_of_def updateNodesAppearance_def Let_def
        split: option.splits)
  have "(state_of (resetHighlight (s\<lparr>selectedNode := None\<rparr>)))\<lparr>selectedNode := None\<rparr>
        = state_of (resetHighlight (s\<lparr>selectedNode := None\<rparr>))"
    using sel [of "s\<lparr>selectedNode := None\<rparr>"] by simp
  then show ?thesis
    by (simp add: clearSelection_def resetHighlight_idem)
qed

lemma resetHighlight_heaps:
  assumes "gd_nodes (graphData s) = Some ns" "gd_links (graphData s) = Some ls"
  shows "nheap (state_of (resetHighlight s)) n
           = (if n \<in> set ns then set_node False 1 (nheap s n) else nheap s n)"
    and "lheap (state_of (resetHighlight s)) l
           = (if l \<in> set ls then set_link False 1 (lheap s l) else lheap s l)"
    and "selectedNode (state_of (resetHighlight s)) = selectedNode s"
  using assms
  by (simp_all add: resetHighlight_def state_of_def updateNodesAppearance_def Let_def
        fold_upd_apply set_node_idem set_link_idem split: option.splits)

lemma apply_threshold_idem: "apply_threshold t (apply_threshold t l) = apply_threshold t l"
  by (simp add: apply_threshold_def)

lemma confidenceChanged_heaps:
  assumes "gd_links (graphData s) = Some ls"
  shows "lheap (state_of (confidenceChanged s)) l
           = (if l \<in> set ls then apply_threshold (confidenceThreshold s) (lheap s l)
              else lheap s l)"
    and "nheap (state_of (confidenceChanged s)) = nheap s"
    and "graphData (state_of (confidenceChanged s)) = graphData s"
    and "requests (state_of (confidenceChanged s)) = requests s"
  using assms
  by (simp_all add: confidenceChanged_def state_of_def updateNodesAppearance_def
        fold_upd_apply apply_threshold_idem split: option.splits)

lemma link_ends_set_link: "link_ends (set_link b v l) = link_ends l"
  by (simp add: set_link_def)

lemma link_source_set_link: "link_source (set_link b v l) = link_source l"
  by (simp add: link_source_def link_ends_set_link)

lemma link_target_set_link: "link_target (set_link b v l) = link_target l"
  by (simp add: link_target_def link_ends_set_link)

lemma connects_set_link: "connects node (set_link b v l) = connects node l"
  by (simp add: connects_def link_source_set_link link_target_set_link)

lemma connectedNode_set_link: "connectedNode node (set_link b v l) = connectedNode node l"
  by (simp add: connectedNode_def link_source_set_link link_target_set_link)

lemma raw_not_connected: "\<not> connects (Raw a) l"
  by (cases "link_ends l") (simp_all add: connects_def link_source_def link_target_def)

lemma connects_Proxy: "connects node l \<Longrightarrow> \<exists>b. connectedNode node l = Ref (Proxy b)"
  by (cases "link_ends l")
     (auto simp: connects_def connectedNode_def link_source_def link_target_def)


lemma forEach_highlightConnected:
  assumes "\<forall>l\<in>set cs. connects node (lheap t l)"
  shows "forEach (highlightConnected node) cs t
         = Inr (t\<lparr>nheap := (\<lambda>b. if \<exists>l\<in>set cs. connectedNode node (lheap t l) = Ref (Proxy b)
                                then set_node True 0.8 (nheap t b) else nheap t b),
                  lheap := (\<lambda>l. if l \<in> set cs then set_link True 1 (lheap t l) else lheap t l)\<rparr>)"
  using assms
proof (induction cs arbitrary: t)
  case Nil
  then show ?case by simp
next
  case (Cons l cs)
  from Cons.prems have "connects node (lheap t l)" by simp
  then obtain b where b: "connectedNode node (lheap t l) = Ref (Proxy b)"
    using connects_Proxy by blast
  define t1 where "t1 = t\<lparr>nheap := (nheap t)(b := set_node True 0.8 (nheap t b)),
                           lheap := (lheap t)(l := set_link True 1 (lheap t l))\<rparr>"
  have step: "highlightConnected node l t = Inr t1"
    by (simp add: highlightConnected_def t1_def b connectedNode_set_link)
  have same: "connectedNode node (lheap t1 x) = connectedNode node (lheap t x)" for x
    by (simp add: t1_def connectedNode_set_link)
  have same': "connects node (lheap t1 x) = connects node (lheap t x)" for x
    by (simp add: t1_def connects_set_link)
  have pre: "\<forall>x\<in>set cs. connects node (lheap t1 x)"
    using Cons.prems by (simp add: same')
  have nh1: "nheap t1 c = (if c = b then set_node True 0.8 (nheap t b) else nheap t c)" for c
    by (simp add: t1_def)
  have lh1: "lheap t1 x = (if x = l then set_link True 1 (lheap t l) else lheap t x)" for x
    by (simp add: t1_def)
  have nh: "(\<lambda>c. if \<exists>x\<in>set cs. connectedNode node (lheap t1 x) = Ref (Proxy c)
                  then set_node True 0.8 (nheap t1 c) else nheap t1 c)
            = (\<lambda>c. if \<exists>x\<in>set (l # cs). connectedNode node (lheap t x) = Ref (Proxy c)
                  then set_node True 0.8 (nheap t c) else nheap t c)"
    by (rule ext) (auto simp: same nh1 b set_node_idem)
  have lh: "(\<lambda>x. if x \<in> set cs then set_link True 1 (lheap t1 x) else lheap t1 x)
            = (\<lambda>x. if x \<in> set (l # cs) then set_link True 1 (lheap t x) else lheap t x)"
    by (rule ext) (simp add: lh1 set_link_idem)
  have "forEach (highlightConnected node) (l # cs) t = forEach (highlightConnected node) cs t1"
    by (simp add: step)
  also have "\<dots> = Inr (t1\<lparr>nheap := (\<lambda>c. if \<exists>x\<in>set cs. connectedNode node (lheap t1 x) = Ref (Proxy c)
                                then set_node True 0.8 (nheap t1 c) else nheap t1 c),
                  lheap := (\<lambda>x. if x \<in> set cs then set_link True 1 (lheap t1 x) else lheap t1 x)\<rparr>)"
    by (rule Cons.IH [OF pre])
  also have "\<dots> = Inr (t\<lparr>nheap := (\<lambda>c. if \<exists>x\<in>set (l # cs). connectedNode node (lheap t x) = Ref (Proxy c)
                                then set_node True 0.8 (nheap t c) else nheap t c),
                  lheap := (\<lambda>x. if x \<in> set (l # cs) then set_link True 1 (lheap t x) else lheap t x)\<rparr>)"
    unfolding nh lh by (simp add: t1_def)
  finally show ?case .
qed

lemma set_node_twice: "set_node a v (set_node b w n) = set_node a v n"
  by (simp add: set_node_def)

lemma set_link_twice: "set_link a v (set_link b w l) = set_link a v l"
  by (simp add: set_link_def)

lemma highlightNode_run:
  assumes ns: "gd_nodes (graphData s) = Some ns"
    and ls: "gd_links (graphData s) = Some ls"
  shows "highlightNode node s
         = updateNodesAppearance
            (s\<lparr>nheap := (\<lambda>b. if \<exists>l\<in>set ls. connects node (lheap s l)
                                      \<and> connectedNode node (lheap s l) = Ref (Proxy b)
                                then set_node True 0.8
                                       (if b = obj_of node then set_node True 1 (nheap s b)
                                        else if b \<in> set ns then set_node False 0.2 (nheap s b)
                                        else nheap s b)
                                else if b = obj_of node then set_node True 1 (nheap s b)
                                else if b \<in> set ns then set_node False 0.2 (nheap s b)
                                else nheap s b),
                  lheap := (\<lambda>l. if l \<in> set ls
                                then (if connects node (lheap s l)
                                      then set_link True 1 (lheap s l)
                                      else set_link False 0.1 (lheap s l))
                                else lheap s l)\<rparr>)"
proof -
  define s3 where "s3 = s\<lparr>lheap := fold (\<lambda>l h. h(l := set_link False 0.1 (h l))) ls (lheap s),
                          nheap := (fold (\<lambda>n h. h(n := set_node False 0.2 (h n))) ns (nheap s))
                              (obj_of node := set_node True 1
                                 (fold (\<lambda>n h. h(n := set_node False 0.2 (h n))) ns (nheap s)
                                    (obj_of node)))\<rparr>"
  define cs where "cs = filter (\<lambda>l. connects node (lheap s l)) ls"
  have lh3: "lheap s3 l = (if l \<in> set ls then set_link False 0.1 (lheap s l) else lheap s l)" for l
    by (simp add: s3_def fold_upd_apply set_link_idem)
  have nh3: "nheap s3 b = (if b = obj_of node then set_node True 1 (nheap s b)
                           else if b \<in> set ns then set_node False 0.2 (nheap s b)
                           else nheap s b)" for b
    by (simp add: s3_def fold_upd_apply set_node_idem set_node_twice)
  have conn: "connects node (lheap s3 l) = connects node (lheap s l)" for l
    by (simp add: lh3 connects_set_link)
  have cn: "connectedNode node (lheap s3 l) = connectedNode node (lheap s l)" for l
    by (simp add: lh3 connectedNode_set_link)
  have "highlightNode node s
        = and_then (forEach (highlightConnected node)
                      (filter (\<lambda>l. connects node (lheap s3 l)) ls) s3) updateNodesAppearance"
    by (simp add: highlightNode_def ns ls Let_def s3_def)
  then have unfold: "highlightNode node s
        = and_then (forEach (highlightConnected node) cs s3) updateNodesAppearance"
    by (simp add: conn cs_def)
  have pre: "\<forall>l\<in>set cs. connects node (lheap s3 l)"
    by (simp add: cs_def conn)
  have run: "highlightNode node s
        = updateNodesAppearance
            (s3\<lparr>nheap := (\<lambda>b. if \<exists>l\<in>set cs. connectedNode node (lheap s3 l) = Ref (Proxy b)
                                then set_node True 0.8 (nheap s3 b) else nheap s3 b),
                  lheap := (\<lambda>l. if l \<in> set cs then set_link True 1 (lheap s3 l) else lheap s3 l)\<rparr>)"
    unfolding unfold forEach_highlightConnected [OF pre]
    by (simp add: and_then_def)
  have nh: "(\<lambda>b. if \<exists>l\<in>set cs. connectedNode node (lheap s3 l) = Ref (Proxy b)
                                then set_node True 0.8 (nheap s3 b) else nheap s3 b)
            = (\<lambda>b. if \<exists>l\<in>set ls. connects node (lheap s l)
                                      \<and> connectedNode node (lheap s l) = Ref (Proxy b)
                                then set_node True 0.8
                                       (if b = obj_of node then set_node True 1 (nheap s b)
                                        else if b \<in> set ns then set_node False 0.2 (nheap s b)
                                        else nheap s b)
                                else if b = obj_of node then set_node True 1 (nheap s b)
                                else if b \<in> set ns then set_node False 0.2 (nheap s b)
                                else nheap s b)"
  proof (rule ext)
    fix b
    have "(\<exists>l\<in>set cs. connectedNode node (lheap s3 l) = Ref (Proxy b))
          = (\<exists>l\<in>set ls. connects node (lheap s l)
               \<and> connectedNode node (lheap s l) = Ref (Proxy b))"
      by (auto simp: cs_def cn)
    then show "(if \<exists>l\<in>set cs. connectedNode node (lheap s3 l) = Ref (Proxy b)
                                then set_node True 0.8 (nheap s3 b) else nheap s3 b)
            = (if \<exists>l\<in>set ls. connects node (lheap s l)
                                      \<and> connectedNode node (lheap s l) = Ref (Proxy b)
                                then set_node True 0.8
                                       (if b = obj_of node then set_node True 1 (nheap s b)
                                        else if b \<in> set ns then set_node False 0.2 (nheap s b)
                                        else nheap s b)
                                else if b = obj_of node then set_node True 1 (nheap s b)
                                else if b \<in> set ns then set_node False 0.2 (nheap s b)
                                else nheap s b)"
      by (simp only: nh3)
  qed
  have lh: "(\<lambda>l. if l \<in> set cs then set_link True 1 (lheap s3 l) else lheap s3 l)
            = (\<lambda>l. if l \<in> set ls
                                then (if connects node (lheap s l)
                                      then set_link True 1 (lheap s l)
                                      else set_link False 0.1 (lheap s l))
                                else lheap s l)"
    by (rule ext) (simp add: cs_def lh3 set_link_twice)
  have "s3\<lparr>nheap := nh', lheap := lh'\<rparr> = s\<lparr>nheap := nh', lheap := lh'\<rparr>" for nh' lh'
    by (auto intro!: comp.equality simp: s3_def)
  then show ?thesis
    unfolding run nh lh by simp
qed

lemma state_of_updateNodesAppearance: "state_of (updateNodesAppearance s) = s"
  by (simp add: updateNodesAppearance_def state_of_def split: option.splits)

lemma highlightNode_heaps:
  assumes ns: "gd_nodes (graphData s) = Some ns"
    and ls: "gd_links (graphData s) = Some ls"
  shows "nheap (state_of (highlightNode node s)) b
           = (if \<exists>l\<in>set ls. connects node (lheap s l)
                    \<and> connectedNode node (lheap s l) = Ref (Proxy b)
              then set_node True 0.8 (nheap s b)
              else if b = obj_of node then set_node True 1 (nheap s b)
              else if b \<in> set ns then set_node False 0.2 (nheap s b)
              else nheap s b)"
    and "lheap (state_of (highlightNode node s)) l
           = (if l \<in> set ls
              then (if connects node (lheap s l)
                    then set_link True 1 (lheap s l)
                    else set_link False 0.1 (lheap s l))
              else lheap s l)"
proof -
  let ?nb = "\<exists>l\<in>set ls. connects node (lheap s l)
                    \<and> connectedNode node (lheap s l) = Ref (Proxy b)"
  have st: "state_of (highlightNode node s)
         = s\<lparr>nheap := (\<lambda>b. if \<exists>l\<in>set ls. connects node (lheap s l)
                                      \<and> connectedNode node (lheap s l) = Ref (Proxy b)
                                then set_node True 0.8
                                       (if b = obj_of node then set_node True 1 (nheap s b)
                                        else if b \<in> set ns then set_node False 0.2 (nheap s b)
                                        else nheap s b)
                                else if b = obj_of node then set_node True 1 (nheap s b)
                                else if b \<in> set ns then set_node False 0.2 (nheap s b)
                                else nheap s b),
                  lheap := (\<lambda>l. if l \<in> set ls
                                then (if connects node (lheap s l)
                                      then set_link True 1 (lheap s l)
                                      else set_link False 0.1 (lheap s l))
                                else lheap s l)\<rparr>"
    unfolding highlightNode_run [OF ns ls] state_of_updateNodesAppearance ..
  show "lheap (state_of (highlightNode node s)) l
           = (if l \<in> set ls
              then (if connects node (lheap s l)
                    then set_link True 1 (lheap s l)
                    else set_link False 0.1 (lheap s l))
              else lheap s l)"
    unfolding st by simp
  define nb where "nb = (\<lambda>b. \<exists>l\<in>set ls. connects node (lheap s l)
                    \<and> connectedNode node (lheap s l) = Ref (Proxy b))"
  have "nheap (state_of (highlightNode node s)) b
           = (if nb b
              then set_node True 0.8
                     (if b = obj_of node then set_node True 1 (nheap s b)
                      else if b \<in> set ns then set_node False 0.2 (nheap s b)
                      else nheap s b)
              else if b = obj_of node then set_node True 1 (nheap s b)
              else if b \<in> set ns then set_node False 0.2 (nheap s b)
              else nheap s b)"
    unfolding st nb_def by simp
  then have "nheap (state_of (highlightNode node s)) b
           = (if nb b
              then set_node True 0.8 (nheap s b)
              else if b = obj_of node then set_node True 1 (nheap s b)
              else if b \<in> set ns then set_node False 0.2 (nheap s b)
              else nheap s b)"
    by (simp add: set_node_twice)
  then show "nheap (state_of (highlightNode node s)) b
           = (if ?nb
              then set_node True 0.8 (nheap s b)
              else if b = obj_of node then set_node True 1 (nheap s b)
              else if b \<in> set ns then set_node False 0.2 (nheap s b)
              else nheap s b)"
    unfolding nb_def .
qed



section \<open>Link width\<close>

text \<open>
  C6, as stated: the width of every link is its confidence times a fixed factor, the
  confidence being 0.5 when the link has none. A link whose confidence is the number 0
  does have a confidence, yet \<^verbatim>\<open>link.confidence || 0.5\<close> replaces it by 0.5: its width
  is 1.5, not 0.
\<close>

theorem getLinkWidth_zero_counterexample:
  "link_confidence zero_link = Some 0 \<and> getLinkWidth zero_link = 1.5
   \<and> getLinkWidth zero_link \<noteq> 3 * 0"
  by (simp add: zero_link_def ex_link_def getLinkWidth_def)

text \<open>
  C6, amended: the width is three times the confidence when the link has a confidence
  other than 0, and three times 0.5 when the link has no confidence or the confidence 0.
\<close>

theorem getLinkWidth_amended:
  "(link_confidence l = Some c \<and> c \<noteq> 0 \<longrightarrow> getLinkWidth l = 3 * c)
   \<and> (link_confidence l = None \<or> link_confidence l = Some 0 \<longrightarrow> getLinkWidth l = 3 * 0.5)"
  by (auto simp: getLinkWidth_def)

theorem getLinkWidth_amended_witness:
  "link_confidence (lheap ex_state 20) = Some 0.9 \<and> (0.9::real) \<noteq> 0
   \<and> getLinkWidth (lheap ex_state 20) = 3 * 0.9
   \<and> link_confidence (lheap ex_state 7) = None
   \<and> getLinkWidth (lheap ex_state 7) = 3 * 0.5"
proof -
  have a: "link_confidence (lheap ex_state 20) = Some 0.9 \<and> (0.9::real) \<noteq> 0"
    by (simp add: ex_state_def ex_link_def)
  have b: "link_confidence (lheap ex_state 7) = None"
    by (simp add: ex_state_def ex_link_def)
  show ?thesis
    using a b getLinkWidth_amended [of "lheap ex_state 20" "0.9"]
      getLinkWidth_amended [of "lheap ex_state 7" 0] by simp
qed

section \<open>Switching between the 3D and the 2D view\<close>

text \<open>
  C7. Calling \<open>toggleView\<close> twice leaves the graph data unchanged: the same node and link
  arrays, every node and link object as it was, and the view mode back where it
  started; nor does a single switch lose any of it. This holds on every path, the one
  where \<open>loadData\<close> throws for want of a renderer included.
\<close>

theorem toggleView_twice:
  "graphData (state_of (toggleView (state_of (toggleView s)))) = graphData s
   \<and> nheap (state_of (toggleView (state_of (toggleView s)))) = nheap s
   \<and> lheap (state_of (toggleView (state_of (toggleView s)))) = lheap s
   \<and> is3D (state_of (toggleView (state_of (toggleView s)))) = is3D s
   \<and> graphData (state_of (toggleView s)) = graphData s
   \<and> nheap (state_of (toggleView s)) = nheap s
   \<and> lheap (state_of (toggleView s)) = lheap s"
proof -
  have one: "graphData (state_of (toggleView s')) = graphData s'
             \<and> nheap (state_of (toggleView s')) = nheap s'
             \<and> lheap (state_of (toggleView s')) = lheap s'
             \<and> is3D (state_of (toggleView s')) = (\<not> is3D s')" for s'
    by (simp add: toggleView_def state_of_def loadData_def initGraph_def Let_def
        split: option.splits)
  show ?thesis
    using one [of s] one [of "state_of (toggleView s)"] by simp
qed

theorem toggleView_twice_witness:
  "graphData (state_of (toggleView (state_of (toggleView ex_state)))) = ex_graph
   \<and> nheap (state_of (toggleView (state_of (toggleView ex_state)))) 11 = ex_node ''SP_B'' ''SP''
   \<and> is3D (state_of (toggleView (state_of (toggleView ex_state))))"
  using toggleView_twice [of ex_state] by (simp add: ex_state_def)

section \<open>The confidence threshold\<close>

text \<open>
  C5. Right after the confidence slider is set to \<open>t\<close>, every link of the graph has
  opacity 1 if its confidence is at least \<open>t\<close> and 0.3 otherwise (a link without a
  confidence is not at least \<open>t\<close>); the node objects and the graph arrays are unchanged,
  and the resulting links do not depend on the node objects.
\<close>

theorem applyConfidenceThreshold_links:
  assumes "gd_links (graphData s) = Some ls"
  shows "(\<forall>l\<in>set ls. link_opacity (lheap (state_of (confidence_slider t s)) l)
            = (case link_confidence (lheap s l) of
                 Some c \<Rightarrow> Some (if t \<le> c then 1 else 0.3)
               | None \<Rightarrow> Some 0.3))
         \<and> nheap (state_of (confidence_slider t s)) = nheap s
         \<and> graphData (state_of (confidence_slider t s)) = graphData s
         \<and> lheap (state_of (confidence_slider t (s\<lparr>nheap := h\<rparr>)))
             = lheap (state_of (confidence_slider t s))"
proof -
  let ?s = "s\<lparr>confidenceThreshold := t\<rparr>"
  have l: "gd_links (graphData ?s) = Some ls" using assms by simp
  let ?sh = "s\<lparr>nheap := h, confidenceThreshold := t\<rparr>"
  have l': "gd_links (graphData ?sh) = Some ls" using assms by simp
  have "lheap (state_of (confidenceChanged ?sh)) x
        = lheap (state_of (confidenceChanged ?s)) x" for x
    by (simp add: confidenceChanged_heaps(1) [OF l] confidenceChanged_heaps(1) [OF l'])
  then have "lheap (state_of (confidenceChanged ?sh)) = lheap (state_of (confidenceChanged ?s))"
    by (rule ext)
  then have indep: "lheap (state_of (confidence_slider t (s\<lparr>nheap := h\<rparr>)))
             = lheap (state_of (confidence_slider t s))"
    by (simp add: confidence_slider_def)
  have "\<forall>l\<in>set ls. link_opacity (lheap (state_of (confidence_slider t s)) l)
            = (case link_confidence (lheap s l) of
                 Some c \<Rightarrow> Some (if t \<le> c then 1 else 0.3)
               | None \<Rightarrow> Some 0.3)"
    by (auto simp: confidence_slider_def confidenceChanged_heaps(1) [OF l]
          apply_threshold_def split: option.splits)
  moreover have "nheap (state_of (confidence_slider t s)) = nheap s"
    by (simp add: confidence_slider_def confidenceChanged_heaps(2) [OF l])
  moreover have "graphData (state_of (confidence_slider t s)) = graphData s"
    by (simp add: confidence_slider_def confidenceChanged_heaps(3) [OF l])
  ultimately show ?thesis using indep by blast
qed

theorem applyConfidenceThreshold_links_witness:
  "gd_links (graphData ex_state) = Some [20, 21, 22]
   \<and> link_opacity (lheap (state_of (confidence_slider 0.7 ex_state)) 20) = Some 1
   \<and> link_opacity (lheap (state_of (confidence_slider 0.7 ex_state)) 21) = Some 1
   \<and> link_opacity (lheap (state_of (confidence_slider 0.7 ex_state)) 22) = Some 0.3
   \<and> nheap (state_of (confidence_slider 0.7 ex_state)) = nheap ex_state"
proof -
  have g: "gd_links (graphData ex_state) = Some [20, 21, 22]"
    by (simp add: ex_state_def ex_graph_def)
  have c: "link_confidence (lheap ex_state 20) = Some 0.9"
    "link_confidence (lheap ex_state 21) = Some 0.7"
    "link_confidence (lheap ex_state 22) = Some 0.4"
    by (simp_all add: ex_state_def ex_link_def)
  show ?thesis
    using g c applyConfidenceThreshold_links [OF g, of "0.7"] by simp
qed

section \<open>Clearing the selection\<close>

text \<open>
  C8. \<open>clearSelection\<close> is idempotent: a second call yields exactly the outcome of the
  first. After it, no node is selected, and every node and every link of the graph has
  opacity 1 and is not highlighted.
\<close>

theorem clearSelection_idempotent:
  "clearSelection (state_of (clearSelection s)) = clearSelection s
   \<and> (gd_nodes (graphData s) = Some ns \<and> gd_links (graphData s) = Some ls \<longrightarrow>
        selectedNode (state_of (clearSelection s)) = None
        \<and> (\<forall>n\<in>set ns. node_opacity (nheap (state_of (clearSelection s)) n) = Some 1
                      \<and> node_highlighted (nheap (state_of (clearSelection s)) n) = Some False)
        \<and> (\<forall>l\<in>set ls. link_opacity (lheap (state_of (clearSelection s)) l) = Some 1
                      \<and> link_highlighted (lheap (state_of (clearSelection s)) l) = Some False))"
proof (intro conjI impI)
  show "clearSelection (state_of (clearSelection s)) = clearSelection s"
    by (rule clearSelection_twice)
next
  assume a: "gd_nodes (graphData s) = Some ns \<and> gd_links (graphData s) = Some ls"
  let ?s = "s\<lparr>selectedNode := None\<rparr>"
  from a have n: "gd_nodes (graphData ?s) = Some ns" and l: "gd_links (graphData ?s) = Some ls"
    by simp_all
  show "selectedNode (state_of (clearSelection s)) = None"
    using resetHighlight_heaps(3) [OF n l] by (simp add: clearSelection_def)
  show "\<forall>n\<in>set ns. node_opacity (nheap (state_of (clearSelection s)) n) = Some 1
                      \<and> node_highlighted (nheap (state_of (clearSelection s)) n) = Some False"
    using resetHighlight_heaps(1) [OF n l] by (simp add: clearSelection_def set_node_def)
  show "\<forall>l\<in>set ls. link_opacity (lheap (state_of (clearSelection s)) l) = Some 1
                      \<and> link_highlighted (lheap (state_of (clearSelection s)) l) = Some False"
    using resetHighlight_heaps(2) [OF n l] by (simp add: clearSelection_def set_link_def)
qed

theorem clearSelection_idempotent_witness:
  "clearSelection (state_of (clearSelection ex_state)) = clearSelection ex_state
   \<and> gd_nodes (graphData ex_state) = Some [10, 11, 12, 13]
   \<and> gd_links (graphData ex_state) = Some [20, 21, 22]
   \<and> selectedNode (state_of (clearSelection ex_state)) = None
   \<and> node_opacity (nheap (state_of (clearSelection ex_state)) 13) = Some 1
   \<and> link_highlighted (lheap (state_of (clearSelection ex_state)) 22) = Some False"
proof -
  have g: "gd_nodes (graphData ex_state) = Some [10, 11, 12, 13]
           \<and> gd_links (graphData ex_state) = Some [20, 21, 22]"
    by (simp add: ex_state_def ex_graph_def)
  show ?thesis
    using g clearSelection_idempotent [of ex_state "[10, 11, 12, 13]" "[20, 21, 22]"] by simp
qed

section \<open>Selecting a node\<close>





section \<open>Auxiliary lemmas on call-chain loading\<close>

lemma store_all_out: "x < a \<or> a + length xs \<le> x \<Longrightarrow> store_all a xs h x = h x"
  by (induction xs arbitrary: a h) auto

lemma store_all_in: "i < length xs \<Longrightarrow> store_all a xs h (a + i) = xs ! i"
proof (induction xs arbitrary: a h i)
  case Nil
  then show ?case by simp
next
  case (Cons x xs)
  show ?case
  proof (cases i)
    case 0
    then show ?thesis by (simp add: store_all_out)
  next
    case (Suc j)
    with Cons.prems have "j < length xs" by simp
    then have "store_all (Suc a) xs (h(a := x)) (Suc a + j) = xs ! j"
      by (rule Cons.IH)
    with Suc show ?thesis by simp
  qed
qed

lemma store_all_upt:
  "map (store_all a xs h) [a ..< a + length xs] = xs"
  by (rule nth_equalityI) (simp_all add: store_all_in)

lemma find_first_nth:
  "i < length xs \<Longrightarrow> P (xs ! i) \<Longrightarrow> (\<forall>k<i. \<not> P (xs ! k)) \<Longrightarrow> find_first P xs = Some (xs ! i)"
proof (induction xs arbitrary: i)
  case Nil
  then show ?case by simp
next
  case (Cons x xs)
  show ?case
  proof (cases i)
    case 0
    with Cons.prems show ?thesis by simp
  next
    case (Suc j)
    with Cons.prems have "j < length xs" "P (xs ! j)" by simp_all
    moreover from Cons.prems Suc have "\<forall>k<j. \<not> P (xs ! k)" by auto
    ultimately have "find_first P xs = Some (xs ! j)" by (rule Cons.IH)
    moreover from Cons.prems Suc have "\<not> P x" by auto
    ultimately show ?thesis using Suc by simp
  qed
qed

lemma set_node_fields:
  "node_id (set_node b v n) = node_id n" "node_name (set_node b v n) = node_name n"
  "node_type (set_node b v n) = node_type n" "node_confidence (set_node b v n) = node_confidence n"
  "node_x (set_node b v n) = node_x n" "node_y (set_node b v n) = node_y n"
  "node_opacity (set_node b v n) = Some v" "node_highlighted (set_node b v n) = Some b"
  by (simp_all add: set_node_def)

lemma set_link_fields:
  "link_ends (set_link b v l) = link_ends l"
  "link_type (set_link b v l) = link_type l" "link_confidence (set_link b v l) = link_confidence l"
  "link_opacity (set_link b v l) = Some v" "link_highlighted (set_link b v l) = Some b"
  by (simp_all add: set_link_def)

lemma json_graph:
  assumes "body_nodes body = Some xs" "body_links body = Some ys"
  shows "json body s
         = (\<lparr>gd_nodes = Some [next_node s ..< next_node s + length xs],
              gd_links = Some [next_link s ..< next_link s + length ys]\<rparr>,
            s\<lparr>nheap := store_all (next_node s) (map node_of_json xs) (nheap s),
              next_node := next_node s + length xs,
              lheap := store_all (next_link s) (map link_of_json ys) (lheap s),
              next_link := next_link s + length ys\<rparr>)"
  using assms by (simp add: json_def json_nodes_def json_links_def)

lemma highlightNode_frame:
  assumes ns: "gd_nodes (graphData s) = Some ns"
    and ls: "gd_links (graphData s) = Some ls"
  shows "graphData (state_of (highlightNode node s)) = graphData s"
    and "alerts (state_of (highlightNode node s)) = alerts s"
    and "selectedNode (state_of (highlightNode node s)) = selectedNode s"
    and "graph (state_of (highlightNode node s)) = graph s"
    and "is3D (state_of (highlightNode node s)) = is3D s"
    and "graph s = Some g \<Longrightarrow> highlightNode node s = Inr (state_of (highlightNode node s))"
  by (simp_all add: highlightNode_run [OF ns ls] state_of_updateNodesAppearance)
     (simp add: updateNodesAppearance_def state_of_def)

lemma loadCallChain_success_fields:
  fixes name :: string and ok :: bool
  assumes g: "graph s = Some g"
    and xs: "body_nodes body = Some xs" and ys: "body_links body = Some ys"
  defines "S \<equiv> loadCallChain (Resolved \<lparr>resp_ok = ok, resp_json = Some body\<rparr>) name s"
    and "ns \<equiv> [next_node s ..< next_node s + length xs]"
    and "ls \<equiv> [next_link s ..< next_link s + length ys]"
    and "nh1 \<equiv> store_all (next_node s) (map node_of_json xs) (nheap s)"
    and "lh1 \<equiv> store_all (next_link s) (map link_of_json ys) (lheap s)"
  shows "graphData S = \<lparr>gd_nodes = Some ns, gd_links = Some ls\<rparr>"
    and "alerts S = alerts s"
    and "selectedNode S = (case find_first (\<lambda>n. node_name (nh1 n) = name) ns of
                             None \<Rightarrow> selectedNode s | Some node \<Rightarrow> Some node)"
    and "node_id (nheap S a) = node_id (nh1 a)"
    and "node_name (nheap S a) = node_name (nh1 a)"
    and "node_type (nheap S a) = node_type (nh1 a)"
    and "link_ends (lheap S l) = link_ends (lh1 l)"
    and "link_type (lheap S l) = link_type (lh1 l)"
    and "link_confidence (lheap S l) = link_confidence (lh1 l)"
    and "find_first (\<lambda>n. node_name (nh1 n) = name) ns = Some node \<Longrightarrow>
           node_opacity (nheap S node) = Some 1 \<and> node_highlighted (nheap S node) = Some True"
proof -
  define data where "data = \<lparr>gd_nodes = Some ns, gd_links = Some ls\<rparr>"
  define s0 where "s0 = s\<lparr>requests := requests s @ [CallChainReq name (depth s) (confidenceThreshold s)]\<rparr>"
  define s1 where "s1 = s0\<lparr>nheap := nh1, next_node := next_node s + length xs,
                           lheap := lh1, next_link := next_link s + length ys\<rparr>"
  define s2 where "s2 = s1\<lparr>graphData := data, graph := Some (g\<lparr>r_data := Some data\<rparr>)\<rparr>"
  have j: "json body s0 = (data, s1)"
    using json_graph [OF xs ys, of s0]
    by (simp add: data_def s1_def s0_def ns_def ls_def nh1_def lh1_def)
  have ld: "loadData data s1 = Inr s2"
    by (simp add: loadData_def s2_def s1_def s0_def g)
  have dn: "gd_nodes data = Some ns" by (simp add: data_def)
  have main: "S = try_catch (case find_first (\<lambda>n. node_name (nheap s2 n) = name) ns of
                       Some node \<Rightarrow> handleNodeClick (Raw node) s2
                     | None \<Rightarrow> Inr s2) (alert LoadCallChainFailed)"
    unfolding S_def loadCallChain_def Let_def s0_def [symmetric]
    by (simp add: j ld and_then_def dn)
  have f2: "nheap s2 = nh1" "lheap s2 = lh1" "graphData s2 = data" "alerts s2 = alerts s"
    "selectedNode s2 = selectedNode s"
    by (simp_all add: s2_def s1_def s0_def)
  have C: "graphData S = \<lparr>gd_nodes = Some ns, gd_links = Some ls\<rparr> \<and>
    alerts S = alerts s \<and>
    selectedNode S = (case find_first (\<lambda>n. node_name (nh1 n) = name) ns of
                             None \<Rightarrow> selectedNode s | Some node \<Rightarrow> Some node) \<and>
    node_id (nheap S a) = node_id (nh1 a) \<and>
    node_name (nheap S a) = node_name (nh1 a) \<and>
    node_type (nheap S a) = node_type (nh1 a) \<and>
    link_ends (lheap S l) = link_ends (lh1 l) \<and>
    link_type (lheap S l) = link_type (lh1 l) \<and>
    link_confidence (lheap S l) = link_confidence (lh1 l) \<and>
    (find_first (\<lambda>n. node_name (nh1 n) = name) ns = Some node \<longrightarrow>
     node_opacity (nheap S node) = Some 1 \<and> node_highlighted (nheap S node) = Some True)"
  proof (cases "find_first (\<lambda>n. node_name (nh1 n) = name) ns")
    case None
    then have "S = s2" by (simp add: main f2 try_catch_def)
    with None show ?thesis
      by (simp add: f2 data_def)
  next
    case (Some m)
    let ?t = "s2\<lparr>selectedNode := Some m\<rparr>"
    have tn: "gd_nodes (graphData ?t) = Some ns" and tl: "gd_links (graphData ?t) = Some ls"
      and tg: "graph ?t = Some (g\<lparr>r_data := Some data\<rparr>)"
      by (simp_all add: s2_def data_def)
    from highlightNode_frame(6) [OF tn tl tg, of "Raw m"]
    have "handleNodeClick (Raw m) s2 = Inr (state_of (highlightNode (Raw m) ?t))"
      by (simp add: handleNodeClick_def)
    with Some have SS: "S = state_of (highlightNode (Raw m) ?t)"
      by (simp add: main f2 try_catch_def)
    have nhS: "nheap S b = (if b = m then set_node True 1 (nh1 b)
              else if b \<in> set ns then set_node False 0.2 (nh1 b)
              else nh1 b)" for b
      unfolding SS highlightNode_heaps(1) [OF tn tl] by (simp add: raw_not_connected f2)
    have lhS: "lheap S x = (if x \<in> set ls then set_link False 0.1 (lh1 x) else lh1 x)" for x
      unfolding SS highlightNode_heaps(2) [OF tn tl] by (simp add: raw_not_connected f2)
    have fr: "graphData S = data" "alerts S = alerts s" "selectedNode S = Some m"
      unfolding SS highlightNode_frame [OF tn tl] by (simp_all add: f2)
    from Some fr show ?thesis
      by (simp add: nhS lhS data_def set_node_fields set_link_fields)
  qed
  from C show "graphData S = \<lparr>gd_nodes = Some ns, gd_links = Some ls\<rparr>"
    and "alerts S = alerts s"
    and "selectedNode S = (case find_first (\<lambda>n. node_name (nh1 n) = name) ns of
                             None \<Rightarrow> selectedNode s | Some node \<Rightarrow> Some node)"
    and "node_id (nheap S a) = node_id (nh1 a)"
    and "node_name (nheap S a) = node_name (nh1 a)"
    and "node_type (nheap S a) = node_type (nh1 a)"
    and "link_ends (lheap S l) = link_ends (lh1 l)"
    and "link_type (lheap S l) = link_type (lh1 l)"
    and "link_confidence (lheap S l) = link_confidence (lh1 l)"
    and "find_first (\<lambda>n. node_name (nh1 n) = name) ns = Some node \<Longrightarrow>
           node_opacity (nheap S node) = Some 1 \<and> node_highlighted (nheap S node) = Some True"
    by blast+
qed


lemma state_of_simps [simp]: "state_of (Inl (e, s)) = s" "state_of (Inr s) = s"
  by (simp_all add: state_of_def)

lemma requests_and_then:
  assumes "\<And>t. requests (state_of (f t)) = requests t"
  shows "requests (state_of (and_then r f)) = requests (state_of r)"
proof (cases r)
  case (Inl es)
  then show ?thesis by (simp add: and_then_def)
next
  case (Inr t)
  then show ?thesis using assms [of t] by (simp add: and_then_def state_of_def)
qed

lemma requests_try_catch_alert:
  "requests (try_catch r (alert m)) = requests (state_of r)"
  by (cases r) (auto simp: try_catch_def state_of_def alert_def)

lemma updateNodesAppearance_requests:
  "requests (state_of (updateNodesAppearance s)) = requests s"
  by (simp add: updateNodesAppearance_def state_of_def split: option.splits)

lemma highlightConnected_requests:
  "requests (state_of (highlightConnected node l s)) = requests s"
  by (simp add: highlightConnected_def state_of_def Let_def split: jsval.splits)

lemma forEach_highlightConnected_requests:
  "requests (state_of (forEach (highlightConnected node) cs s)) = requests s"
proof (induction cs arbitrary: s)
  case Nil
  then show ?case by (simp add: state_of_def)
next
  case (Cons l cs)
  show ?case
  proof (cases "highlightConnected node l s")
    case (Inl es)
    with highlightConnected_requests [of node l s] show ?thesis
      by (simp add: state_of_def)
  next
    case (Inr t)
    with highlightConnected_requests [of node l s] have "requests t = requests s"
      by (simp add: state_of_def)
    with Inr Cons.IH [of t] show ?thesis by simp
  qed
qed

lemma highlightNode_requests: "requests (state_of (highlightNode node s)) = requests s"
proof (cases "gd_nodes (graphData s)")
  case None
  then show ?thesis by (simp add: highlightNode_def state_of_def)
next
  case (Some ns)
  note ns = this
  show ?thesis
  proof (cases "gd_links (graphData s)")
    case None
    with ns show ?thesis by (simp add: highlightNode_def state_of_def Let_def)
  next
    case (Some ls)
    with ns show ?thesis
      by (simp add: highlightNode_def Let_def
            requests_and_then [of updateNodesAppearance, OF updateNodesAppearance_requests]
            forEach_highlightConnected_requests)
  qed
qed

lemma handleNodeClick_requests: "requests (state_of (handleNodeClick node s)) = requests s"
  by (simp add: handleNodeClick_def highlightNode_requests)

lemma focusNode_requests: "requests (state_of (focusNode node s)) = requests s"
  by (simp add: focusNode_def state_of_def Let_def split: option.splits)

lemma loadData_requests: "requests (state_of (loadData d s)) = requests s"
  by (simp add: loadData_def state_of_def Let_def split: option.splits)

lemma json_requests: "requests (snd (json b s)) = requests s"
  by (simp add: json_def json_nodes_def json_links_def split: option.splits)

lemma loadCallChain_requests:
  "requests (loadCallChain r name s)
   = requests s @ [CallChainReq name (depth s) (confidenceThreshold s)]"
proof -
  define s0 where "s0 = s\<lparr>requests := requests s @ [CallChainReq name (depth s) (confidenceThreshold s)]\<rparr>"
  have r0: "requests s0 = requests s @ [CallChainReq name (depth s) (confidenceThreshold s)]"
    by (simp add: s0_def)
  have after: "requests (state_of
          (and_then (loadData data s1)
             (\<lambda>s2. case gd_nodes data of
                      None \<Rightarrow> Inl (TypeError, s2)
                    | Some ns \<Rightarrow>
                        (case find_first (\<lambda>n. node_name (nheap s2 n) = name) ns of
                           Some node \<Rightarrow> handleNodeClick (Raw node) s2
                         | None \<Rightarrow> Inr s2)))) = requests s1" for data s1
  proof -
    have "requests (state_of (case gd_nodes data of
                      None \<Rightarrow> Inl (TypeError, t)
                    | Some ns \<Rightarrow>
                        (case find_first (\<lambda>n. node_name (nheap t n) = name) ns of
                           Some node \<Rightarrow> handleNodeClick (Raw node) t
                         | None \<Rightarrow> Inr t))) = requests t" for t
      by (simp add: handleNodeClick_requests split: option.splits)
    then show ?thesis
      by (simp add: requests_and_then loadData_requests)
  qed
  show ?thesis
  proof (cases r)
    case Rejected
    then show ?thesis
      by (simp add: loadCallChain_def requests_try_catch_alert state_of_def)
  next
    case (Resolved resp)
    show ?thesis
    proof (cases "resp_json resp")
      case None
      with Resolved show ?thesis
        by (simp add: loadCallChain_def requests_try_catch_alert state_of_def)
    next
      case (Some body)
      obtain data s1 where j: "json body s0 = (data, s1)" by (cases "json body s0")
      with json_requests [of body s0] have "requests s1 = requests s0" by simp
      with Resolved Some j after [of data s1] r0 show ?thesis
        unfolding loadCallChain_def Let_def s0_def [symmetric]
        by (simp add: requests_try_catch_alert)
    qed
  qed
qed


lemma confidenceChanged_frame:
  "requests (state_of (confidenceChanged s)) = requests s"
  "graphData (state_of (confidenceChanged s)) = graphData s"
  by (simp_all add: confidenceChanged_def updateNodesAppearance_def split: option.splits)

lemma searchNode_found:
  fixes ok :: bool and rest :: "procedure list" and cr :: "call_chain_body response promise"
  assumes nonempty: "searchTerm s \<noteq> []"
    and ns: "gd_nodes (graphData s) = Some ns" and ls: "gd_links (graphData s) = Some ls"
    and g: "graph s = Some g"
    and f: "find_first (\<lambda>n. node_name (nheap s n) = proc_name p) ns = Some node"
  defines "R \<equiv> searchNode (Resolved \<lparr>resp_ok = ok,
                  resp_json = Some \<lparr>procedures = Some (p # rest)\<rparr>\<rparr>) cr s"
  shows "selectedNode R = Some node"
    and "node_highlighted (nheap R node) = Some True"
    and "graph R = Some (g\<lparr>r_camera := r_camera g @
           (if is3D s
            then [CenterAt (node_x (nheap s node)) (node_y (nheap s node)) 100,
                  CameraPosition (node_x (nheap s node)) (node_y (nheap s node)) (Some 100)
                    (Some node) (Some 2000)]
            else [CenterAt (node_x (nheap s node)) (node_y (nheap s node)) 250])\<rparr>)"
    and "alerts R = alerts s"
proof -
  define s0 where "s0 = s\<lparr>requests := requests s @ [SearchReq (searchTerm s)]\<rparr>"
  define t where "t = s0\<lparr>selectedNode := Some node\<rparr>"
  define H where "H = state_of (highlightNode (Proxy node) t)"
  have tn: "gd_nodes (graphData t) = Some ns" and tl: "gd_links (graphData t) = Some ls"
    and tg: "graph t = Some g"
    by (simp_all add: t_def s0_def ns ls g)
  have click: "handleNodeClick (Proxy node) s0 = Inr H"
    using highlightNode_frame(6) [OF tn tl tg, of "Proxy node"]
    by (simp add: handleNodeClick_def t_def H_def)
  have Hf: "graph H = Some g" "is3D H = is3D s" "alerts H = alerts s"
    "selectedNode H = Some node"
    unfolding H_def highlightNode_frame [OF tn tl] by (simp_all add: t_def s0_def g)
  have Hn: "nheap H node = set_node True 0.8 (nheap s node)
            \<or> nheap H node = set_node True 1 (nheap s node)"
    unfolding H_def highlightNode_heaps(1) [OF tn tl] by (simp add: t_def s0_def)
  then have Hx: "node_x (nheap H node) = node_x (nheap s node)"
    "node_y (nheap H node) = node_y (nheap s node)"
    "node_highlighted (nheap H node) = Some True"
    by (auto simp: set_node_fields)
  define g2 where "g2 = g\<lparr>r_camera := r_camera g @
           (if is3D s
            then [CenterAt (node_x (nheap s node)) (node_y (nheap s node)) 100,
                  CameraPosition (node_x (nheap s node)) (node_y (nheap s node)) (Some 100)
                    (Some node) (Some 2000)]
            else [CenterAt (node_x (nheap s node)) (node_y (nheap s node)) 250])\<rparr>"
  have focus: "focusNode (Proxy node) H = Inr (H\<lparr>graph := Some g2\<rparr>)"
    by (simp add: focusNode_def Let_def Hf Hx g2_def)
  have "R = try_catch (and_then (handleNodeClick (Proxy node) s0) (focusNode (Proxy node)))
              (alert SearchFailed)"
    using nonempty ns f by (simp add: R_def searchNode_def Let_def s0_def)
  then have R: "R = H\<lparr>graph := Some g2\<rparr>"
    by (simp add: click focus and_then_def try_catch_def)
  show "selectedNode R = Some node" by (simp add: R Hf)
  show "node_highlighted (nheap R node) = Some True" by (simp add: R Hx)
  show "graph R = Some (g\<lparr>r_camera := r_camera g @
           (if is3D s
            then [CenterAt (node_x (nheap s node)) (node_y (nheap s node)) 100,
                  CameraPosition (node_x (nheap s node)) (node_y (nheap s node)) (Some 100)
                    (Some node) (Some 2000)]
            else [CenterAt (node_x (nheap s node)) (node_y (nheap s node)) 250])\<rparr>)"
    by (simp add: R g2_def)
  show "alerts R = alerts s" by (simp add: R Hf)
qed

section \<open>The depth and confidence sliders\<close>

text \<open>
  C2, as stated: every change of the depth slider or of the confidence slider, while a
  node is selected, fetches a fresh call-chain, and on success the same node is
  re-selected if still present. Three inputs show otherwise. A change of the
  confidence slider issues no request at all: \<open>confidenceChanged\<close> only rewrites the link
  opacities. The node to select is looked up by name: when the selected node is
  \<open>HR.SP_A\<close> and the response lists \<open>FIN.SP_A\<close>, of the same name, before it, the node
  selected is \<open>FIN.SP_A\<close>, although \<open>HR.SP_A\<close> is present. And without a renderer
  \<open>loadData\<close> throws once it has replaced the graph data, so that no node of the new
  graph is selected.
\<close>

theorem slider_change_counterexample:
  "selectedNode ex_state = Some 10
   \<and> requests ex_state = []
   \<and> requests (state_of (confidence_slider 0.7 ex_state)) = []
   \<and> selectedNode dup_state = Some 10
   \<and> node_id (nheap dup_state 10) = ''HR.SP_A''
   \<and> node_id (nheap (depth_slider 2 (ok_response dup_body) dup_state) 15) = ''HR.SP_A''
   \<and> selectedNode (depth_slider 2 (ok_response dup_body) dup_state) = Some 14
   \<and> node_id (nheap (depth_slider 2 (ok_response dup_body) dup_state) 14) = ''FIN.SP_A''
   \<and> selectedNode no_renderer_state = Some 10
   \<and> gd_nodes (graphData (depth_slider 2 (ok_response scenario_A) no_renderer_state))
       = Some [14, 15, 16]
   \<and> node_id (nheap (depth_slider 2 (ok_response scenario_A) no_renderer_state) 14) = ''SP_A''
   \<and> selectedNode (depth_slider 2 (ok_response scenario_A) no_renderer_state) = Some 10"
  by code_simp

text \<open>
  C2, amended. While a node is selected, every change of the depth slider requests the
  call-chain of the selected node's name with the new depth (and the current confidence
  threshold). On success, in a component whose renderer exists, the graph data becomes
  exactly the nodes and links of the response, and the first node of the response that
  has the selected node's name is selected and highlighted. A change of the confidence
  slider requests nothing.
\<close>

theorem slider_change_amended:
  assumes sel: "selectedNode s = Some n"
  shows "requests (depth_slider d r s)
           = requests s @ [CallChainReq (node_name (nheap s n)) d (confidenceThreshold s)]
     \<and> (graph s = Some g \<and> body_nodes body = Some xs \<and> body_links body = Some ys \<longrightarrow>
          graphData (depth_slider d (Resolved \<lparr>resp_ok = True, resp_json = Some body\<rparr>) s)
            = \<lparr>gd_nodes = Some [next_node s ..< next_node s + length xs],
               gd_links = Some [next_link s ..< next_link s + length ys]\<rparr>
          \<and> map (\<lambda>a. node_id (nheap (depth_slider d (Resolved \<lparr>resp_ok = True, resp_json = Some body\<rparr>) s) a))
                [next_node s ..< next_node s + length xs] = map jn_id xs
          \<and> map (\<lambda>a. node_name (nheap (depth_slider d (Resolved \<lparr>resp_ok = True, resp_json = Some body\<rparr>) s) a))
                [next_node s ..< next_node s + length xs] = map jn_name xs
          \<and> map (\<lambda>a. node_type (nheap (depth_slider d (Resolved \<lparr>resp_ok = True, resp_json = Some body\<rparr>) s) a))
                [next_node s ..< next_node s + length xs] = map jn_type xs
          \<and> map (\<lambda>l. link_ends (lheap (depth_slider d (Resolved \<lparr>resp_ok = True, resp_json = Some body\<rparr>) s) l))
                [next_link s ..< next_link s + length ys]
              = map (\<lambda>j. Ids (jl_source j) (jl_target j)) ys
          \<and> map (\<lambda>l. link_type (lheap (depth_slider d (Resolved \<lparr>resp_ok = True, resp_json = Some body\<rparr>) s) l))
                [next_link s ..< next_link s + length ys] = map jl_type ys
          \<and> map (\<lambda>l. link_confidence (lheap (depth_slider d (Resolved \<lparr>resp_ok = True, resp_json = Some body\<rparr>) s) l))
                [next_link s ..< next_link s + length ys] = map jl_confidence ys
          \<and> (i < length xs \<and> jn_name (xs ! i) = node_name (nheap s n)
                \<and> (\<forall>k<i. jn_name (xs ! k) \<noteq> node_name (nheap s n)) \<longrightarrow>
               selectedNode (depth_slider d (Resolved \<lparr>resp_ok = True, resp_json = Some body\<rparr>) s)
                 = Some (next_node s + i)
               \<and> node_opacity (nheap (depth_slider d (Resolved \<lparr>resp_ok = True, resp_json = Some body\<rparr>) s)
                                 (next_node s + i)) = Some 1
               \<and> node_highlighted (nheap (depth_slider d (Resolved \<lparr>resp_ok = True, resp_json = Some body\<rparr>) s)
                                 (next_node s + i)) = Some True))
     \<and> requests (state_of (confidence_slider t s)) = requests s"
proof (intro conjI impI)
  show "requests (depth_slider d r s)
           = requests s @ [CallChainReq (node_name (nheap s n)) d (confidenceThreshold s)]"
    by (simp add: depth_slider_def depthChanged_def sel loadCallChain_requests)
  show "requests (state_of (confidence_slider t s)) = requests s"
    by (simp add: confidence_slider_def confidenceChanged_frame)
next
  assume a: "graph s = Some g \<and> body_nodes body = Some xs \<and> body_links body = Some ys"
  let ?sd = "s\<lparr>depth := d\<rparr>"
  let ?name = "node_name (nheap s n)"
  let ?S = "depth_slider d (Resolved \<lparr>resp_ok = True, resp_json = Some body\<rparr>) s"
  let ?ns = "[next_node s ..< next_node s + length xs]"
  let ?ls = "[next_link s ..< next_link s + length ys]"
  let ?nh1 = "store_all (next_node s) (map node_of_json xs) (nheap s)"
  let ?lh1 = "store_all (next_link s) (map link_of_json ys) (lheap s)"
  have S: "?S = loadCallChain (Resolved \<lparr>resp_ok = True, resp_json = Some body\<rparr>) ?name ?sd"
    by (simp add: depth_slider_def depthChanged_def sel)
  from a have g: "graph ?sd = Some g" and xs: "body_nodes body = Some xs"
    and ys: "body_links body = Some ys" by simp_all
  note F = loadCallChain_success_fields
    [where name = "node_name (nheap s n)" and ok = True, OF g xs ys, folded S, simplified]
  have nf: "node_id (nheap ?S a) = node_id (?nh1 a)" "node_name (nheap ?S a) = node_name (?nh1 a)"
    "node_type (nheap ?S a) = node_type (?nh1 a)" for a
    by (simp_all add: F)
  have lf: "link_ends (lheap ?S l) = link_ends (?lh1 l)"
    "link_type (lheap ?S l) = link_type (?lh1 l)"
    "link_confidence (lheap ?S l) = link_confidence (?lh1 l)" for l
    by (simp_all add: F)
  have selS: "selectedNode ?S = (case find_first (\<lambda>n. node_name (?nh1 n) = ?name) ?ns of
                               None \<Rightarrow> selectedNode ?sd | Some node \<Rightarrow> Some node)"
    by (rule F(3))
  have hl: "node_opacity (nheap ?S node) = Some 1 \<and> node_highlighted (nheap ?S node) = Some True"
    if "find_first (\<lambda>n. node_name (?nh1 n) = ?name) ?ns = Some node" for node
    using F(10) that by simp
  have mapn: "map ?nh1 ?ns = map node_of_json xs"
    using store_all_upt [of "next_node s" "map node_of_json xs" "nheap s"] by simp
  have mapl: "map ?lh1 ?ls = map link_of_json ys"
    using store_all_upt [of "next_link s" "map link_of_json ys" "lheap s"] by simp
  have fn: "map (\<lambda>a. f (?nh1 a)) ?ns = map (\<lambda>j. f (node_of_json j)) xs" for f :: "node \<Rightarrow> 'x"
    using arg_cong [OF mapn, of "map f"] by (simp add: comp_def)
  have fl: "map (\<lambda>a. f (?lh1 a)) ?ls = map (\<lambda>j. f (link_of_json j)) ys" for f :: "link \<Rightarrow> 'x"
    using arg_cong [OF mapl, of "map f"] by (simp add: comp_def)
  show "graphData ?S = \<lparr>gd_nodes = Some ?ns, gd_links = Some ?ls\<rparr>"
    by (simp add: F)
  show "map (\<lambda>a. node_id (nheap ?S a)) ?ns = map jn_id xs"
    using fn [of node_id] by (simp add: nf node_of_json_def)
  show "map (\<lambda>a. node_name (nheap ?S a)) ?ns = map jn_name xs"
    using fn [of node_name] by (simp add: nf node_of_json_def)
  show "map (\<lambda>a. node_type (nheap ?S a)) ?ns = map jn_type xs"
    using fn [of node_type] by (simp add: nf node_of_json_def)
  show "map (\<lambda>l. link_ends (lheap ?S l)) ?ls = map (\<lambda>j. Ids (jl_source j) (jl_target j)) ys"
    using fl [of link_ends] by (simp add: lf link_of_json_def)
  show "map (\<lambda>l. link_type (lheap ?S l)) ?ls = map jl_type ys"
    using fl [of link_type] by (simp add: lf link_of_json_def)
  show "map (\<lambda>l. link_confidence (lheap ?S l)) ?ls = map jl_confidence ys"
    using fl [of link_confidence] by (simp add: lf link_of_json_def)
  assume first: "i < length xs \<and> jn_name (xs ! i) = ?name \<and> (\<forall>k<i. jn_name (xs ! k) \<noteq> ?name)"
  have at: "node_name (?nh1 (next_node s + k)) = jn_name (xs ! k)" if "k < length xs" for k
    using that by (simp add: store_all_in node_of_json_def)
  have "find_first (\<lambda>n. node_name (?nh1 n) = ?name) ?ns = Some (?ns ! i)"
  proof (rule find_first_nth)
    from first show "i < length ?ns" by simp
    from first show "node_name (?nh1 (?ns ! i)) = ?name" by (simp add: at)
    from first show "\<forall>k<i. node_name (?nh1 (?ns ! k)) \<noteq> ?name" by (simp add: at)
  qed
  with first have fa: "find_first (\<lambda>n. node_name (?nh1 n) = ?name) ?ns = Some (next_node s + i)"
    by simp
  from fa show "selectedNode ?S = Some (next_node s + i)" by (simp add: selS)
  from hl [OF fa] show "node_opacity (nheap ?S (next_node s + i)) = Some 1"
    and "node_highlighted (nheap ?S (next_node s + i)) = Some True" by simp_all
qed


theorem slider_change_amended_witness:
  "selectedNode ex_state = Some 10
   \<and> requests (depth_slider 2 (ok_response scenario_A) ex_state) = [CallChainReq ''SP_A'' 2 0.5]
   \<and> graphData (depth_slider 2 (ok_response scenario_A) ex_state)
       = \<lparr>gd_nodes = Some [14, 15, 16], gd_links = Some [23, 24]\<rparr>
   \<and> map (\<lambda>a. node_name (nheap (depth_slider 2 (ok_response scenario_A) ex_state) a)) [14, 15, 16]
       = [''SP_A'', ''SP_B'', ''T_ORDER'']
   \<and> selectedNode (depth_slider 2 (ok_response scenario_A) ex_state) = Some 14
   \<and> node_highlighted (nheap (depth_slider 2 (ok_response scenario_A) ex_state) 14) = Some True
   \<and> requests (state_of (confidence_slider 0.7 ex_state)) = []"
proof -
  let ?xs = "[\<lparr>jn_id = ''SP_A'', jn_name = ''SP_A'', jn_type = ''SP'', jn_confidence = None\<rparr>,
         \<lparr>jn_id = ''SP_B'', jn_name = ''SP_B'', jn_type = ''SP'', jn_confidence = None\<rparr>,
         \<lparr>jn_id = ''T_ORDER'', jn_name = ''T_ORDER'', jn_type = ''TABLE'', jn_confidence = None\<rparr>]"
  let ?ys = "[\<lparr>jl_source = ''SP_A'', jl_target = ''SP_B'', jl_type = ''CALLS'',
          jl_confidence = Some (0.9::real)\<rparr>,
         \<lparr>jl_source = ''SP_A'', jl_target = ''T_ORDER'', jl_type = ''REFERENCES'',
          jl_confidence = Some 0.7\<rparr>]"
  let ?g = "\<lparr>r_3d = True, r_data = Some ex_graph, r_destroyed = False, r_camera = []\<rparr>"
  let ?name = "node_name (nheap ex_state 10)"
  have sel: "selectedNode ex_state = Some 10"
    by (simp add: ex_state_def)
  have ev: "node_name (nheap ex_state 10) = ''SP_A''" "confidenceThreshold ex_state = 0.5"
    "requests ex_state = []" "next_node ex_state = 14" "next_link ex_state = 23"
    by (simp_all add: ex_state_def ex_node_def)
  have h: "graph ex_state = Some ?g \<and> body_nodes scenario_A = Some ?xs
           \<and> body_links scenario_A = Some ?ys"
    by (simp add: ex_state_def scenario_A_def)
  have first: "0 < length ?xs \<and> jn_name (?xs ! 0) = ?name
               \<and> (\<forall>k<0. jn_name (?xs ! k) \<noteq> ?name)"
    by (simp add: ev)
  have up: "[14 ..< 14 + length ?xs] = [14, 15, 16::nat]" "[23 ..< 23 + length ?ys] = [23, 24::nat]"
    by code_simp+
  note T = slider_change_amended [OF sel, where d = 2 and r = "ok_response scenario_A"
        and g = ?g and body = scenario_A and t = "0.7" and xs = ?xs and ys = ?ys and i = 0]
  from T have r: "requests (depth_slider 2 (ok_response scenario_A) ex_state)
                  = [CallChainReq ''SP_A'' 2 0.5]"
    and c: "requests (state_of (confidence_slider 0.7 ex_state)) = []"
    by (simp_all add: ev)
  from T h first have "graphData (depth_slider 2 (ok_response scenario_A) ex_state)
       = \<lparr>gd_nodes = Some [14 ..< 14 + length ?xs], gd_links = Some [23 ..< 23 + length ?ys]\<rparr>"
    and "map (\<lambda>a. node_name (nheap (depth_slider 2 (ok_response scenario_A) ex_state) a))
            [14 ..< 14 + length ?xs] = map jn_name ?xs"
    and "selectedNode (depth_slider 2 (ok_response scenario_A) ex_state) = Some (14 + 0)"
    and "node_highlighted (nheap (depth_slider 2 (ok_response scenario_A) ex_state) (14 + 0))
           = Some True"
    unfolding ok_response_def ev by blast+
  then have "graphData (depth_slider 2 (ok_response scenario_A) ex_state)
       = \<lparr>gd_nodes = Some [14, 15, 16], gd_links = Some [23, 24]\<rparr>"
    and "map (\<lambda>a. node_name (nheap (depth_slider 2 (ok_response scenario_A) ex_state) a))
            [14, 15, 16] = [''SP_A'', ''SP_B'', ''T_ORDER'']"
    and "selectedNode (depth_slider 2 (ok_response scenario_A) ex_state) = Some 14"
    and "node_highlighted (nheap (depth_slider 2 (ok_response scenario_A) ex_state) 14) = Some True"
    unfolding up by simp_all
  with sel r c show ?thesis by blast
qed

section \<open>A call-chain request that fails\<close>

text \<open>
  C3. A failed call-chain request should leave the graph data untouched. \<open>loadCallChain\<close>
  never reads \<^verbatim>\<open>response.ok\<close>: for a response with an error status and a JSON error
  body it stores that body as the graph data, and only then fails on
  \<^verbatim>\<open>data.nodes.find\<close> and alerts. The message is shown, but the graph has been
  replaced by an object without nodes and links.
\<close>

theorem loadCallChain_error_body_replaces_store:
  "graphData ex_state = ex_graph
   \<and> graphData (loadCallChain error_response ''SP_A'' ex_state)
       = \<lparr>gd_nodes = None, gd_links = None\<rparr>
   \<and> graphData (loadCallChain error_response ''SP_A'' ex_state) \<noteq> graphData ex_state
   \<and> alerts (loadCallChain error_response ''SP_A'' ex_state) = [LoadCallChainFailed]"
  by code_simp

section \<open>Exporting the image\<close>

text \<open>
  C9, as stated: every failure of \<open>exportImage\<close>, the absence of a canvas included, is
  reported to the user. Without a canvas the function returns at
  \<^verbatim>\<open>if (!canvas) return;\<close> and shows nothing.
\<close>

theorem exportImage_no_canvas_counterexample:
  "graphContainer no_canvas_state = Some \<lparr>canvas = None\<rparr>
   \<and> alerts no_canvas_state = []
   \<and> alerts (exportImage ''2026-11-03T09:00:00.000Z'' no_canvas_state) = []
   \<and> downloads (exportImage ''2026-11-03T09:00:00.000Z'' no_canvas_state) = []"
  by code_simp

text \<open>
  C9, amended. \<open>exportImage\<close> never changes the graph data, the node and link objects
  or the selection. With a canvas whose \<^verbatim>\<open>toBlob\<close> delivers a blob, the blob is
  offered for download as \<^verbatim>\<open>oracle-sp-graph-<date>.png\<close>, the date being the first ten
  characters of the current ISO time, and no message is shown. Without a canvas nothing
  happens at all, and nothing is reported. When the container is missing or
  \<^verbatim>\<open>toBlob\<close> throws, the failure is reported and nothing is downloaded.
\<close>

theorem exportImage_amended:
  "graphData (exportImage now s) = graphData s
   \<and> nheap (exportImage now s) = nheap s
   \<and> lheap (exportImage now s) = lheap s
   \<and> selectedNode (exportImage now s) = selectedNode s
   \<and> (graphContainer s = Some c \<and> canvas c = Some (Calls b) \<longrightarrow>
        downloads (exportImage now s)
          = downloads s @ [(b, ''oracle-sp-graph-'' @ take 10 now @ ''.png'')]
        \<and> alerts (exportImage now s) = alerts s)
   \<and> (graphContainer s = Some c \<and> canvas c = None \<longrightarrow> exportImage now s = s)
   \<and> (graphContainer s = None \<or> (graphContainer s = Some c \<and> canvas c = Some Throws) \<longrightarrow>
        alerts (exportImage now s) = alerts s @ [ExportFailed]
        \<and> downloads (exportImage now s) = downloads s)"
  by (auto simp: exportImage_def try_catch_def alert_def
      split: option.splits toBlob_outcome.splits)

theorem exportImage_amended_witness:
  "graphContainer ex_state = Some \<lparr>canvas = Some (Calls ''png'')\<rparr>
   \<and> downloads (exportImage ''2026-11-03T09:00:00.000Z'' ex_state)
       = [(''png'', ''oracle-sp-graph-2026-11-03.png'')]
   \<and> alerts (exportImage ''2026-11-03T09:00:00.000Z'' ex_state) = []
   \<and> graphContainer no_canvas_state = Some \<lparr>canvas = None\<rparr>
   \<and> exportImage ''2026-11-03T09:00:00.000Z'' no_canvas_state = no_canvas_state
   \<and> graphContainer (ex_state\<lparr>graphContainer := None\<rparr>) = None
   \<and> alerts (exportImage ''2026-11-03T09:00:00.000Z'' (ex_state\<lparr>graphContainer := None\<rparr>))
       = [ExportFailed]
   \<and> graphData (exportImage ''2026-11-03T09:00:00.000Z'' ex_state) = ex_graph"
proof -
  have c: "graphContainer ex_state = Some \<lparr>canvas = Some (Calls ''png'')\<rparr>"
    "graphContainer no_canvas_state = Some \<lparr>canvas = None\<rparr>"
    "graphContainer (ex_state\<lparr>graphContainer := None\<rparr>) = None"
    "downloads ex_state = []" "alerts ex_state = []" "graphData ex_state = ex_graph"
    by (simp_all add: ex_state_def no_canvas_state_def)
  show ?thesis
    using c
      exportImage_amended [of "''2026-11-03T09:00:00.000Z''" ex_state
        "\<lparr>canvas = Some (Calls ''png'')\<rparr>" "''png''"]
      exportImage_amended [of "''2026-11-03T09:00:00.000Z''" no_canvas_state
        "\<lparr>canvas = None\<rparr>" "''png''"]
      exportImage_amended [of "''2026-11-03T09:00:00.000Z''" "ex_state\<lparr>graphContainer := None\<rparr>"
        "\<lparr>canvas = None\<rparr>" "''png''"]
    by simp
qed

section \<open>Searching from the graph view\<close>

text \<open>
  C10. When the search returns two or more procedures, the outcome is the one for the
  first procedure alone: the rest of the list has no influence on the resulting state.
  If a node of the current graph has the first procedure's name, that node is clicked
  and the camera is moved to it, and the only request made is the search itself: in a
  graph with a renderer the node ends selected and highlighted, the renderer has
  received \<^verbatim>\<open>centerAt\<close> (followed in 3D by \<^verbatim>\<open>cameraPosition\<close> towards the node),
  and no message is shown. Otherwise the call-chain of the first procedure's name is
  loaded, and that is the only further request.
\<close>

theorem searchNode_first_result_only:
  "searchNode (Resolved \<lparr>resp_ok = ok, resp_json = Some \<lparr>procedures = Some (p # rest)\<rparr>\<rparr>) cr s
   = searchNode (Resolved \<lparr>resp_ok = ok, resp_json = Some \<lparr>procedures = Some [p]\<rparr>\<rparr>) cr s
   \<and> (searchTerm s \<noteq> [] \<and> gd_nodes (graphData s) = Some ns \<longrightarrow>
        (find_first (\<lambda>n. node_name (nheap s n) = proc_name p) ns = Some node \<longrightarrow>
           searchNode (Resolved \<lparr>resp_ok = ok, resp_json = Some \<lparr>procedures = Some (p # rest)\<rparr>\<rparr>) cr s
             = try_catch
                 (and_then
                    (handleNodeClick (Proxy node)
                       (s\<lparr>requests := requests s @ [SearchReq (searchTerm s)]\<rparr>))
                    (focusNode (Proxy node)))
                 (alert SearchFailed)
           \<and> requests (searchNode (Resolved \<lparr>resp_ok = ok,
                           resp_json = Some \<lparr>procedures = Some (p # rest)\<rparr>\<rparr>) cr s)
               = requests s @ [SearchReq (searchTerm s)]
           \<and> (gd_links (graphData s) = Some ls \<and> graph s = Some g \<longrightarrow>
                selectedNode (searchNode (Resolved \<lparr>resp_ok = ok,
                           resp_json = Some \<lparr>procedures = Some (p # rest)\<rparr>\<rparr>) cr s) = Some node
                \<and> node_highlighted (nheap (searchNode (Resolved \<lparr>resp_ok = ok,
                           resp_json = Some \<lparr>procedures = Some (p # rest)\<rparr>\<rparr>) cr s) node)
                    = Some True
                \<and> graph (searchNode (Resolved \<lparr>resp_ok = ok,
                           resp_json = Some \<lparr>procedures = Some (p # rest)\<rparr>\<rparr>) cr s)
                    = Some (g\<lparr>r_camera := r_camera g @
                        (if is3D s
                         then [CenterAt (node_x (nheap s node)) (node_y (nheap s node)) 100,
                               CameraPosition (node_x (nheap s node)) (node_y (nheap s node))
                                 (Some 100) (Some node) (Some 2000)]
                         else [CenterAt (node_x (nheap s node)) (node_y (nheap s node)) 250])\<rparr>)
                \<and> alerts (searchNode (Resolved \<lparr>resp_ok = ok,
                           resp_json = Some \<lparr>procedures = Some (p # rest)\<rparr>\<rparr>) cr s)
                    = alerts s))
        \<and> (find_first (\<lambda>n. node_name (nheap s n) = proc_name p) ns = None \<longrightarrow>
           searchNode (Resolved \<lparr>resp_ok = ok, resp_json = Some \<lparr>procedures = Some (p # rest)\<rparr>\<rparr>) cr s
             = loadCallChain cr (proc_name p)
                 (s\<lparr>requests := requests s @ [SearchReq (searchTerm s)]\<rparr>)
           \<and> requests (searchNode (Resolved \<lparr>resp_ok = ok,
                           resp_json = Some \<lparr>procedures = Some (p # rest)\<rparr>\<rparr>) cr s)
               = requests s @ [SearchReq (searchTerm s),
                               CallChainReq (proc_name p) (depth s) (confidenceThreshold s)]))"
proof (intro conjI impI)
  show "searchNode (Resolved \<lparr>resp_ok = ok, resp_json = Some \<lparr>procedures = Some (p # rest)\<rparr>\<rparr>) cr s
   = searchNode (Resolved \<lparr>resp_ok = ok, resp_json = Some \<lparr>procedures = Some [p]\<rparr>\<rparr>) cr s"
    by (simp add: searchNode_def)
next
  let ?s0 = "s\<lparr>requests := requests s @ [SearchReq (searchTerm s)]\<rparr>"
  let ?R = "searchNode (Resolved \<lparr>resp_ok = ok, resp_json = Some \<lparr>procedures = Some (p # rest)\<rparr>\<rparr>) cr s"
  assume a: "searchTerm s \<noteq> [] \<and> gd_nodes (graphData s) = Some ns"
  {
    assume f: "find_first (\<lambda>n. node_name (nheap s n) = proc_name p) ns = Some node"
    with a show found: "?R = try_catch (and_then (handleNodeClick (Proxy node) ?s0)
                                 (focusNode (Proxy node))) (alert SearchFailed)"
      by (simp add: searchNode_def Let_def)
    have "requests (state_of (and_then (handleNodeClick (Proxy node) ?s0) (focusNode (Proxy node))))
          = requests ?s0"
      by (simp add: requests_and_then [of "focusNode (Proxy node)", OF focusNode_requests]
            handleNodeClick_requests)
    then show "requests ?R = requests s @ [SearchReq (searchTerm s)]"
      by (simp add: found requests_try_catch_alert)
    assume b: "gd_links (graphData s) = Some ls \<and> graph s = Some g"
    from a b f have h: "searchTerm s \<noteq> []" "gd_nodes (graphData s) = Some ns"
      "gd_links (graphData s) = Some ls" "graph s = Some g" by simp_all
    note F = searchNode_found [OF h f, where ok = ok and rest = rest and cr = cr]
    show "selectedNode ?R = Some node" by (rule F(1))
    show "node_highlighted (nheap ?R node) = Some True" by (rule F(2))
    show "graph ?R = Some (g\<lparr>r_camera := r_camera g @
                        (if is3D s
                         then [CenterAt (node_x (nheap s node)) (node_y (nheap s node)) 100,
                               CameraPosition (node_x (nheap s node)) (node_y (nheap s node))
                                 (Some 100) (Some node) (Some 2000)]
                         else [CenterAt (node_x (nheap s node)) (node_y (nheap s node)) 250])\<rparr>)"
      by (rule F(3))
    show "alerts ?R = alerts s" by (rule F(4))
  }
  {
    assume f: "find_first (\<lambda>n. node_name (nheap s n) = proc_name p) ns = None"
    with a show nf: "?R = loadCallChain cr (proc_name p) ?s0"
      by (simp add: searchNode_def Let_def try_catch_def)
    show "requests ?R = requests s @ [SearchReq (searchTerm s),
                               CallChainReq (proc_name p) (depth s) (confidenceThreshold s)]"
      by (simp add: nf loadCallChain_requests)
  }
qed

theorem searchNode_first_result_only_witness:
  "searchTerm ex_state \<noteq> [] \<and> gd_nodes (graphData ex_state) = Some [10, 11, 12, 13]
   \<and> gd_links (graphData ex_state) = Some [20, 21, 22]
   \<and> find_first (\<lambda>n. node_name (nheap ex_state n) = ''SP_B'') [10, 11, 12, 13] = Some 11
   \<and> selectedNode (searchNode (Resolved \<lparr>resp_ok = True, resp_json = Some \<lparr>procedures = Some
         [\<lparr>proc_name = ''SP_B'', proc_schema = None\<rparr>,
          \<lparr>proc_name = ''SP_X'', proc_schema = None\<rparr>]\<rparr>\<rparr>) Rejected ex_state) = Some 11
   \<and> graph (searchNode (Resolved \<lparr>resp_ok = True, resp_json = Some \<lparr>procedures = Some
         [\<lparr>proc_name = ''SP_B'', proc_schema = None\<rparr>,
          \<lparr>proc_name = ''SP_X'', proc_schema = None\<rparr>]\<rparr>\<rparr>) Rejected ex_state)
       = Some \<lparr>r_3d = True, r_data = Some ex_graph, r_destroyed = False,
               r_camera = [CenterAt None None 100,
                           CameraPosition None None (Some 100) (Some 11) (Some 2000)]\<rparr>
   \<and> requests (searchNode (Resolved \<lparr>resp_ok = True, resp_json = Some \<lparr>procedures = Some
         [\<lparr>proc_name = ''SP_B'', proc_schema = None\<rparr>,
          \<lparr>proc_name = ''SP_X'', proc_schema = None\<rparr>]\<rparr>\<rparr>) Rejected ex_state)
       = [SearchReq ''SP_B'']
   \<and> find_first (\<lambda>n. node_name (nheap ex_state n) = ''SP_X'') [10, 11, 12, 13] = None
   \<and> requests (searchNode (Resolved \<lparr>resp_ok = True, resp_json = Some \<lparr>procedures = Some
         [\<lparr>proc_name = ''SP_X'', proc_schema = None\<rparr>,
          \<lparr>proc_name = ''SP_B'', proc_schema = None\<rparr>]\<rparr>\<rparr>) Rejected ex_state)
       = [SearchReq ''SP_B'', CallChainReq ''SP_X'' 3 0.5]"
proof -
  let ?g = "\<lparr>r_3d = True, r_data = Some ex_graph, r_destroyed = False, r_camera = []\<rparr>"
  have h: "searchTerm ex_state \<noteq> [] \<and> gd_nodes (graphData ex_state) = Some [10, 11, 12, 13]"
    by (simp add: ex_state_def ex_graph_def)
  have h2: "gd_links (graphData ex_state) = Some [20, 21, 22] \<and> graph ex_state = Some ?g"
    by (simp add: ex_state_def ex_graph_def)
  have f: "find_first (\<lambda>n. node_name (nheap ex_state n) = ''SP_B'') [10, 11, 12, 13] = Some 11"
    "find_first (\<lambda>n. node_name (nheap ex_state n) = ''SP_X'') [10, 11, 12, 13] = None"
    by (simp_all add: ex_state_def ex_node_def)
  have ev: "searchTerm ex_state = ''SP_B''" "requests ex_state = []" "depth ex_state = 3"
    "confidenceThreshold ex_state = 0.5" "is3D ex_state"
    "node_x (nheap ex_state 11) = None" "node_y (nheap ex_state 11) = None"
    by (simp_all add: ex_state_def ex_node_def)
  let ?pB = "\<lparr>proc_name = ''SP_B'', proc_schema = None\<rparr>"
  let ?pX = "\<lparr>proc_name = ''SP_X'', proc_schema = None\<rparr>"
  let ?RB = "searchNode (Resolved \<lparr>resp_ok = True,
                resp_json = Some \<lparr>procedures = Some [?pB, ?pX]\<rparr>\<rparr>) Rejected ex_state"
  let ?RX = "searchNode (Resolved \<lparr>resp_ok = True,
                resp_json = Some \<lparr>procedures = Some [?pX, ?pB]\<rparr>\<rparr>) Rejected ex_state"
  have fB: "find_first (\<lambda>n. node_name (nheap ex_state n) = proc_name ?pB) [10, 11, 12, 13]
            = Some 11"
    and fX: "find_first (\<lambda>n. node_name (nheap ex_state n) = proc_name ?pX) [10, 11, 12, 13]
            = None"
    using f by simp_all
  from h h2 fB searchNode_first_result_only [where s = ex_state and ns = "[10, 11, 12, 13]"
        and ls = "[20, 21, 22]" and g = ?g
        and node = 11 and p = ?pB and rest = "[?pX]" and ok = True and cr = Rejected]
  have rB: "requests ?RB = requests ex_state @ [SearchReq (searchTerm ex_state)]"
    and sB: "selectedNode ?RB = Some 11"
    and gB: "graph ?RB = Some (?g\<lparr>r_camera := r_camera ?g @
                        (if is3D ex_state
                         then [CenterAt (node_x (nheap ex_state 11)) (node_y (nheap ex_state 11)) 100,
                               CameraPosition (node_x (nheap ex_state 11)) (node_y (nheap ex_state 11))
                                 (Some 100) (Some 11) (Some 2000)]
                         else [CenterAt (node_x (nheap ex_state 11)) (node_y (nheap ex_state 11)) 250])\<rparr>)"
    by blast+
  from h fX searchNode_first_result_only [where s = ex_state and ns = "[10, 11, 12, 13]"
        and node = 11 and p = ?pX and rest = "[?pB]" and ok = True and cr = Rejected]
  have rX: "requests ?RX = requests ex_state @ [SearchReq (searchTerm ex_state),
                 CallChainReq (proc_name ?pX) (depth ex_state) (confidenceThreshold ex_state)]"
    by blast
  from rB have rB': "requests ?RB = [SearchReq ''SP_B'']"
    by (simp add: ev)
  from gB have gB': "graph ?RB = Some \<lparr>r_3d = True, r_data = Some ex_graph, r_destroyed = False,
               r_camera = [CenterAt None None 100,
                           CameraPosition None None (Some 100) (Some 11) (Some 2000)]\<rparr>"
    by (simp add: ev)
  from rX have rX': "requests ?RX = [SearchReq ''SP_B'', CallChainReq ''SP_X'' 3 0.5]"
    by (simp add: ev)
  from h h2 f sB gB' rB' rX' show ?thesis by blast
qed

end
